theory Spec2Isabelle
  imports Main "HOL-Library.Word" "HOL-Library.Monad_Syntax"
begin

section \<open>The node header of the adaptive radix tree (execution/index/art/node.cpp)\<close>

text \<open>
  The file \<^verbatim>\<open>node.cpp\<close> holds the part of an ART node that all four inner layouts
  share: the constructor, \<^verbatim>\<open>CopyPrefix\<close>, \<^verbatim>\<open>PrefixMismatch\<close> and the two dispatch
  functions \<^verbatim>\<open>InsertLeaf\<close> and \<^verbatim>\<open>Erase\<close>. The headers \<^verbatim>\<open>node.hpp\<close> and \<^verbatim>\<open>art.hpp\<close>
  are not among the sources, so the field types are read off the code that uses them:
  \<^verbatim>\<open>PrefixMismatch\<close> returns \<^verbatim>\<open>uint32_t\<close> and runs a \<^verbatim>\<open>uint64_t\<close> counter up to
  \<^verbatim>\<open>prefix_length\<close>, and \<^verbatim>\<open>std::min(src->prefix_length, art.maxPrefix)\<close> only compiles
  when both arguments have one type; both are 32-bit unsigned words here. The prefix
  buffer is \<^verbatim>\<open>unique_ptr<uint8_t[]>\<close>, a byte array owned by the node.
\<close>

type_synonym u8 = "8 word"
type_synonym u16 = "16 word"
type_synonym u32 = "32 word"
type_synonym u64 = "64 word"

text \<open>A key is a byte sequence, indexed by \<^verbatim>\<open>key[i]\<close>.\<close>

type_synonym Key = "u8 list"

text \<open>
  The type tag. The two switch statements name \<^verbatim>\<open>N4\<close>, \<^verbatim>\<open>N16\<close>, \<^verbatim>\<open>N48\<close> and \<^verbatim>\<open>N256\<close>
  and have a default branch; \<open>NLeaf\<close> stands for every tag that is none of the four.
\<close>

datatype NodeType = N4 | N16 | N48 | N256 | NLeaf

record ART =
  maxPrefix :: u32

text \<open>
  The fields of the base class. The record is extensible: the fields a derived class
  adds (key bytes, child pointers) are its \<open>more\<close> part.
\<close>

record Node =
  prefix_length :: u32
  count :: u16
  type :: NodeType
  prefix :: "u8 list"

text \<open>
  How a call can end other than by returning: the exception that \<^verbatim>\<open>PrefixMismatch\<close>
  throws, a failed \<^verbatim>\<open>assert\<close> (which aborts the process; assertions are taken as
  enabled), and a read outside an array, which C++ leaves undefined.
\<close>

datatype error = NotImplementedException | AssertionFailure | OutOfBounds

subsection \<open>Node::Node\<close>

text \<open>
  \<^verbatim>\<open>Node::Node(ART &art, NodeType type) : prefix_length(0), count(0), type(type)\<close>
  allocates \<^verbatim>\<open>new uint8_t[art.maxPrefix]\<close>. The bytes of the new array are not
  initialised; \<open>fresh\<close> is whatever the allocator hands out.
\<close>

definition Node_ctor :: "ART \<Rightarrow> NodeType \<Rightarrow> (nat \<Rightarrow> u8) \<Rightarrow> Node" where
  "Node_ctor art t fresh =
     \<lparr>prefix_length = 0, count = 0, type = t,
      prefix = map fresh [0..<unat (maxPrefix art)]\<rparr>"

text \<open>A node's buffer has the size the constructor gave it for this tree.\<close>

definition allocated_for :: "ART \<Rightarrow> 'a Node_scheme \<Rightarrow> bool" where
  "allocated_for art n \<longleftrightarrow> length (prefix n) = unat (maxPrefix art)"

subsection \<open>Node::CopyPrefix\<close>

text \<open>
  \<^verbatim>\<open>src\<close> and \<^verbatim>\<open>dst\<close> are pointers, so the nodes live in a store and the function
  returns the store it leaves behind. \<open>None\<close> is undefined behaviour: a pointer to
  no node, or a copy that runs past the end of a buffer.
\<close>

type_synonym addr = nat
type_synonym 'a heap = "addr \<Rightarrow> 'a Node_scheme option"

text \<open>
  \<^verbatim>\<open>memcpy(dst, src, n)\<close> on two byte arrays: the first \<open>n\<close> bytes of \<open>dst\<close> become
  those of \<open>src\<close>. Copying a buffer onto itself moves each byte onto itself.
\<close>

definition memcpy :: "u8 list \<Rightarrow> u8 list \<Rightarrow> nat \<Rightarrow> u8 list option" where
  "memcpy dst src n =
     (if n \<le> length dst \<and> n \<le> length src then Some (take n src @ drop n dst) else None)"

definition CopyPrefix :: "ART \<Rightarrow> 'a heap \<Rightarrow> addr \<Rightarrow> addr \<Rightarrow> 'a heap option" where
  "CopyPrefix art h src dst = do {
     s \<leftarrow> h src;
     d \<leftarrow> h dst;
     let h1 = h(dst \<mapsto> d\<lparr>prefix_length := prefix_length s\<rparr>);
     s1 \<leftarrow> h1 src;
     d1 \<leftarrow> h1 dst;
     bytes \<leftarrow> memcpy (prefix d1) (prefix s1) (unat (min (prefix_length s1) (maxPrefix art)));
     Some (h1(dst \<mapsto> d1\<lparr>prefix := bytes\<rparr>))
   }"

subsection \<open>Node::PrefixMismatch\<close>

text \<open>
  The loop reads \<^verbatim>\<open>key[depth + pos]\<close> and \<^verbatim>\<open>node->prefix[pos]\<close>; \<open>depth + pos\<close> is
  64-bit addition. Each read is recorded, so that the function returns the list of the
  array positions it touched beside its result.
\<close>

datatype access = KeyRead nat | PrefixRead nat

function PrefixMismatch_loop ::
  "'a Node_scheme \<Rightarrow> Key \<Rightarrow> u64 \<Rightarrow> u64 \<Rightarrow> access list \<Rightarrow> access list \<times> (error + u64)" where
  "PrefixMismatch_loop node key depth pos tr =
     (if pos < ucast (prefix_length node) then
        (let i = unat (depth + pos); j = unat pos; tr' = tr @ [KeyRead i, PrefixRead j] in
         if length key \<le> i \<or> length (prefix node) \<le> j then (tr', Inl OutOfBounds)
         else if key ! i \<noteq> prefix node ! j then (tr', Inr pos)
         else PrefixMismatch_loop node key depth (pos + 1) tr')
      else (tr, Inr pos))"
  by pat_completeness auto
termination
proof (relation "measure (\<lambda>(node, key, depth, pos, tr).
                   unat (ucast (prefix_length node) :: u64) - unat pos)")
  show "wf (measure (\<lambda>(node :: 'a Node_scheme, key :: Key, depth :: u64, pos :: u64, tr :: access list).
                   unat (ucast (prefix_length node) :: u64) - unat pos))"
    by simp
next
  fix node :: "'a Node_scheme" and key :: Key and depth pos :: u64 and tr :: "access list"
    and i j :: nat and tr' :: "access list"
  assume lt: "pos < ucast (prefix_length node)"
  then have "unat pos < unat (ucast (prefix_length node) :: u64)"
    by (simp add: word_less_nat_alt)
  moreover have "unat (ucast (prefix_length node) :: u64) < 2 ^ 64"
    using unsigned_less [of "ucast (prefix_length node) :: u64"] by simp
  ultimately have "unat pos + 1 < 2 ^ 64"
    by simp
  then have "unat (pos + 1) = Suc (unat pos)"
    by (simp add: unat_word_ariths)
  moreover note \<open>unat pos < unat (ucast (prefix_length node) :: u64)\<close>
  ultimately show "((node, key, depth, pos + 1, tr'), (node, key, depth, pos, tr))
        \<in> measure (\<lambda>(node, key, depth, pos, tr).
                   unat (ucast (prefix_length node) :: u64) - unat pos)"
    by simp
qed

declare PrefixMismatch_loop.simps [simp del]

text \<open>
  The function itself: the loop when the prefix fits the buffer, the exception
  otherwise. \<^verbatim>\<open>return pos\<close> converts the 64-bit counter to the 32-bit result.
\<close>

definition PrefixMismatch_traced ::
  "ART \<Rightarrow> 'a Node_scheme \<Rightarrow> Key \<Rightarrow> u64 \<Rightarrow> access list \<times> (error + u32)" where
  "PrefixMismatch_traced art node key depth =
     (if prefix_length node \<le> maxPrefix art then
        (case PrefixMismatch_loop node key depth 0 [] of
           (tr, Inl e) \<Rightarrow> (tr, Inl e)
         | (tr, Inr pos) \<Rightarrow> (tr, Inr (ucast pos)))
      else ([], Inl NotImplementedException))"

text \<open>What the caller sees: the result without the record of the reads.\<close>

definition PrefixMismatch :: "ART \<Rightarrow> 'a Node_scheme \<Rightarrow> Key \<Rightarrow> u64 \<Rightarrow> error + u32" where
  "PrefixMismatch art node key depth = snd (PrefixMismatch_traced art node key depth)"

text \<open>
  A read is in range when it stays inside its array and inside the span that the
  prefix covers: key positions \<open>depth \<dots> depth + prefix_length - 1\<close>, buffer positions
  \<open>0 \<dots> prefix_length - 1\<close>.
\<close>

definition access_in_range :: "'a Node_scheme \<Rightarrow> Key \<Rightarrow> u64 \<Rightarrow> access \<Rightarrow> bool" where
  "access_in_range node key depth a =
     (case a of
        KeyRead i \<Rightarrow> unat depth \<le> i \<and> i < unat depth + unat (prefix_length node) \<and> i < length key
      | PrefixRead j \<Rightarrow> j < unat (prefix_length node) \<and> j < length (prefix node))"

subsection \<open>Node::InsertLeaf and Node::Erase\<close>

text \<open>
  Both functions switch on the tag and call the function of the layout; a tag that is
  none of the four runs into \<^verbatim>\<open>assert(0)\<close>. The functions of the four layouts
  (\<^verbatim>\<open>Node4::insert\<close>, \<^verbatim>\<open>Node4::erase\<close> and so on) are not in this file: they are
  parameters, in the order of the cases.
\<close>

definition InsertLeaf ::
  "(ART \<Rightarrow> 'a Node_scheme \<Rightarrow> u8 \<Rightarrow> 'c \<Rightarrow> error + 'r) \<Rightarrow>
   (ART \<Rightarrow> 'a Node_scheme \<Rightarrow> u8 \<Rightarrow> 'c \<Rightarrow> error + 'r) \<Rightarrow>
   (ART \<Rightarrow> 'a Node_scheme \<Rightarrow> u8 \<Rightarrow> 'c \<Rightarrow> error + 'r) \<Rightarrow>
   (ART \<Rightarrow> 'a Node_scheme \<Rightarrow> u8 \<Rightarrow> 'c \<Rightarrow> error + 'r) \<Rightarrow>
   ART \<Rightarrow> 'a Node_scheme \<Rightarrow> u8 \<Rightarrow> 'c \<Rightarrow> error + 'r" where
  "InsertLeaf Node4_insert Node16_insert Node48_insert Node256_insert art node key newNode =
     (case type node of
        N4 \<Rightarrow> Node4_insert art node key newNode
      | N16 \<Rightarrow> Node16_insert art node key newNode
      | N48 \<Rightarrow> Node48_insert art node key newNode
      | N256 \<Rightarrow> Node256_insert art node key newNode
      | _ \<Rightarrow> Inl AssertionFailure)"

definition Erase ::
  "(ART \<Rightarrow> 'a Node_scheme \<Rightarrow> nat \<Rightarrow> error + 'r) \<Rightarrow>
   (ART \<Rightarrow> 'a Node_scheme \<Rightarrow> nat \<Rightarrow> error + 'r) \<Rightarrow>
   (ART \<Rightarrow> 'a Node_scheme \<Rightarrow> nat \<Rightarrow> error + 'r) \<Rightarrow>
   (ART \<Rightarrow> 'a Node_scheme \<Rightarrow> nat \<Rightarrow> error + 'r) \<Rightarrow>
   ART \<Rightarrow> 'a Node_scheme \<Rightarrow> nat \<Rightarrow> error + 'r" where
  "Erase Node4_erase Node16_erase Node48_erase Node256_erase art node pos =
     (case type node of
        N4 \<Rightarrow> Node4_erase art node pos
      | N16 \<Rightarrow> Node16_erase art node pos
      | N48 \<Rightarrow> Node48_erase art node pos
      | N256 \<Rightarrow> Node256_erase art node pos
      | _ \<Rightarrow> Inl AssertionFailure)"

text \<open>
  An exception can be caught by the caller; a failed assertion and undefined behaviour
  cannot.
\<close>

definition recoverable :: "error \<Rightarrow> bool" where
  "recoverable e \<longleftrightarrow> e = NotImplementedException"

subsection \<open>Example nodes\<close>

text \<open>Concrete nodes, a leaf-tagged node and a store, used to run the functions.\<close>

definition node0 :: Node where
  "node0 = \<lparr>prefix_length = 3, count = 2, type = N4, prefix = [1, 2, 3, 0]\<rparr>"

definition node1 :: Node where
  "node1 = \<lparr>prefix_length = 3, count = 2, type = N4, prefix = [1, 2]\<rparr>"

definition node2 :: Node where
  "node2 = \<lparr>prefix_length = 1, count = 0, type = N16, prefix = [7, 8, 9, 10]\<rparr>"

definition node3 :: Node where
  "node3 = \<lparr>prefix_length = 9, count = 4, type = N4, prefix = [1, 2, 3, 4]\<rparr>"

definition leaf0 :: Node where
  "leaf0 = \<lparr>prefix_length = 0, count = 0, type = NLeaf, prefix = [0, 0, 0, 0]\<rparr>"

definition heap0 :: "unit heap" where
  "heap0 = [16 \<mapsto> node3, 32 \<mapsto> node2]"

section \<open>The four layouts, modelled from the specification\<close>

text \<open>
  \<^verbatim>\<open>node.cpp\<close> dispatches to \<^verbatim>\<open>Node4::insert\<close>, \<^verbatim>\<open>Node16::insert\<close>, \<^verbatim>\<open>Node48::insert\<close>,
  \<^verbatim>\<open>Node256::insert\<close> and the four \<^verbatim>\<open>erase\<close> functions, and the tree operations of
  \<^verbatim>\<open>art.cpp\<close> call \<^verbatim>\<open>PrefixMismatch\<close> and \<^verbatim>\<open>CopyPrefix\<close>. None of these files is among
  the sources. The definitions of this section and the next follow sections 3 and 4 of
  the specification; they call the functions of \<^verbatim>\<open>node.cpp\<close> embedded above wherever the
  specification names them.
\<close>

text \<open>Modelled from the spec: the row identifier, an opaque value compared for equality
  only (section 6); its C++ type is not among the sources.\<close>

type_synonym rowid = nat

text \<open>Modelled from the spec: the variant-specific storage of section 3, as the tagged
  sum that section 9 describes (the classes \<^verbatim>\<open>Node4\<close> to \<^verbatim>\<open>Node256\<close> are missing).
  Node4 and Node16 hold their (key byte, child) pairs in array order; Node48 holds the
  256-entry byte-to-slot index and its child slots; Node256 holds the 256-entry child
  array.\<close>

datatype 'c layout =
    Node4 "(u8 \<times> 'c) list"
  | Node16 "(u8 \<times> 'c) list"
  | Node48 "u8 \<Rightarrow> nat option" "'c option list"
  | Node256 "u8 \<Rightarrow> 'c option"

text \<open>An inner node is the header of \<^verbatim>\<open>node.cpp\<close> extended by one of the layouts.\<close>

type_synonym 'c inner = "'c layout Node_scheme"

text \<open>Modelled from the spec: the tag that identifies a layout (section 3, field
  \<^verbatim>\<open>type\<close>); the derived constructors that set it are missing.\<close>

fun layout_type :: "'c layout \<Rightarrow> NodeType" where
  "layout_type (Node4 kvs) = N4"
| "layout_type (Node16 kvs) = N16"
| "layout_type (Node48 idx slots) = N48"
| "layout_type (Node256 arr) = N256"

text \<open>Modelled from the spec: the capacities 4/16/48/256 of section 3 (the array sizes
  of the missing class declarations).\<close>

fun capacity :: "NodeType \<Rightarrow> nat" where
  "capacity N4 = 4"
| "capacity N16 = 16"
| "capacity N48 = 48"
| "capacity N256 = 256"
| "capacity NLeaf = 0"

text \<open>Modelled from the spec: the storage of a newly created node of each variant
  (the missing derived constructors): no pair, no slot in use.\<close>

fun empty_layout :: "NodeType \<Rightarrow> 'c layout" where
  "empty_layout N16 = Node16 []"
| "empty_layout N48 = Node48 (\<lambda>b. None) (replicate 48 None)"
| "empty_layout N256 = Node256 (\<lambda>b. None)"
| "empty_layout t = Node4 []"

text \<open>Modelled from the spec: the binary search of Node16's sorted key array
  (section 4.1, \<^verbatim>\<open>GetChild\<close>; \<^verbatim>\<open>Node16::GetChild\<close> is missing).\<close>

function bsearch :: "(u8 \<times> 'c) list \<Rightarrow> u8 \<Rightarrow> nat \<Rightarrow> nat \<Rightarrow> 'c option" where
  "bsearch kvs b lo hi =
     (if lo < hi \<and> hi \<le> length kvs then
        (let mid = (lo + hi) div 2 in
         if fst (kvs ! mid) = b then Some (snd (kvs ! mid))
         else if fst (kvs ! mid) < b then bsearch kvs b (mid + 1) hi
         else bsearch kvs b lo mid)
      else None)"
  by pat_completeness auto
termination
  by (relation "measure (\<lambda>(kvs, b, lo, hi). hi - lo)") auto

declare bsearch.simps [simp del]

text \<open>Modelled from the spec: \<^verbatim>\<open>GetChild(byte)\<close> of each variant (section 4.1; the
  base-class \<^verbatim>\<open>Node::GetChild\<close> of \<^verbatim>\<open>node.cpp\<close> only asserts, the overriding functions
  are missing). Node4 scans its pairs in order, Node16 searches its sorted array, Node48
  looks the byte up in its index and checks that the slot is occupied, Node256 indexes
  its array.\<close>

fun get_child :: "'c layout \<Rightarrow> u8 \<Rightarrow> 'c option" where
  "get_child (Node4 kvs) b = map_of kvs b"
| "get_child (Node16 kvs) b = bsearch kvs b 0 (length kvs)"
| "get_child (Node48 idx slots) b =
     (case idx b of
        None \<Rightarrow> None
      | Some s \<Rightarrow> if s < length slots then slots ! s else None)"
| "get_child (Node256 arr) b = arr b"

text \<open>Modelled from the spec: the free slot that a Node48 insertion picks (section 4.1);
  the first unoccupied one.\<close>

fun free_slot :: "'c option list \<Rightarrow> nat option" where
  "free_slot [] = None"
| "free_slot (None # xs) = Some 0"
| "free_slot (Some c # xs) = map_option Suc (free_slot xs)"

text \<open>Modelled from the spec: storing one more pair in a layout that has room
  (section 4.1, \<^verbatim>\<open>InsertChild\<close>; the bodies of the four \<^verbatim>\<open>insert\<close> functions are
  missing). Node4 appends, Node16 shift-inserts in sorted order, Node48 takes a free
  slot and records it in the index, Node256 writes by byte value. \<open>None\<close> is a write
  past the end of a full array.\<close>

fun put :: "'c layout \<Rightarrow> u8 \<Rightarrow> 'c \<Rightarrow> 'c layout option" where
  "put (Node4 kvs) b c = (if length kvs < 4 then Some (Node4 (kvs @ [(b, c)])) else None)"
| "put (Node16 kvs) b c =
     (if length kvs < 16 then Some (Node16 (insort_key fst (b, c) kvs)) else None)"
| "put (Node48 idx slots) b c =
     (case free_slot slots of
        None \<Rightarrow> None
      | Some s \<Rightarrow> Some (Node48 (idx(b \<mapsto> s)) (slots[s := Some c])))"
| "put (Node256 arr) b c = Some (Node256 (arr(b \<mapsto> c)))"

text \<open>The 256 byte values in ascending order.\<close>

definition all_bytes :: "u8 list" where
  "all_bytes = map of_nat [0..<256]"

text \<open>Modelled from the spec: all existing (byte, child) pairs of a node, as they are
  read off for the copy into another variant (section 4.1): array order for Node4 and
  Node16, ascending byte order for Node48 and Node256.\<close>

fun pairs_of :: "'c layout \<Rightarrow> (u8 \<times> 'c) list" where
  "pairs_of (Node4 kvs) = kvs"
| "pairs_of (Node16 kvs) = kvs"
| "pairs_of lay = List.map_filter (\<lambda>b. map_option (Pair b) (get_child lay b)) all_bytes"

text \<open>Modelled from the spec: copying pairs into another layout, one after the other
  (section 4.1, growing and shrinking).\<close>

fun copy_pairs :: "(u8 \<times> 'c) list \<Rightarrow> 'c layout \<Rightarrow> 'c layout option" where
  "copy_pairs [] lay = Some lay"
| "copy_pairs ((b, c) # ps) lay =
     (case put lay b c of None \<Rightarrow> None | Some lay' \<Rightarrow> copy_pairs ps lay')"

text \<open>Modelled from the spec: overwriting the child stored under a byte, which is what
  assigning through the pointer that \<^verbatim>\<open>GetChild\<close> returns does (the recursion of
  sections 4.2 and 4.4 puts the changed subtree back in its slot).\<close>

fun replace_child :: "'c layout \<Rightarrow> u8 \<Rightarrow> 'c \<Rightarrow> 'c layout" where
  "replace_child (Node4 kvs) b c = Node4 (map (\<lambda>(k, x). if k = b then (k, c) else (k, x)) kvs)"
| "replace_child (Node16 kvs) b c = Node16 (map (\<lambda>(k, x). if k = b then (k, c) else (k, x)) kvs)"
| "replace_child (Node48 idx slots) b c =
     (case idx b of None \<Rightarrow> Node48 idx slots | Some s \<Rightarrow> Node48 idx (slots[s := Some c]))"
| "replace_child (Node256 arr) b c = Node256 (arr(b \<mapsto> c))"

text \<open>The array index of the first pair with a given key byte.\<close>

fun index_of :: "u8 \<Rightarrow> (u8 \<times> 'c) list \<Rightarrow> nat option" where
  "index_of b [] = None"
| "index_of b ((k, c) # kvs) = (if k = b then Some 0 else map_option Suc (index_of b kvs))"

text \<open>Modelled from the spec: the position that \<^verbatim>\<open>EraseChild(position)\<close> takes
  (section 4.1; the lookup of the position is missing): the array index in Node4 and
  Node16, the byte value in Node48 and Node256.\<close>

fun position_of :: "'c layout \<Rightarrow> u8 \<Rightarrow> nat option" where
  "position_of (Node4 kvs) b = index_of b kvs"
| "position_of (Node16 kvs) b = index_of b kvs"
| "position_of lay b = (if get_child lay b = None then None else Some (unat b))"

text \<open>Modelled from the spec: removing the pair at a position (section 4.1,
  \<^verbatim>\<open>EraseChild\<close>; the bodies of the four \<^verbatim>\<open>erase\<close> functions are missing). Node4 and
  Node16 close the gap, Node48 frees the slot and clears the index entry, Node256
  clears the entry. \<open>None\<close> is a position that holds no pair.\<close>

fun remove :: "'c layout \<Rightarrow> nat \<Rightarrow> 'c layout option" where
  "remove (Node4 kvs) pos =
     (if pos < length kvs then Some (Node4 (take pos kvs @ drop (Suc pos) kvs)) else None)"
| "remove (Node16 kvs) pos =
     (if pos < length kvs then Some (Node16 (take pos kvs @ drop (Suc pos) kvs)) else None)"
| "remove (Node48 idx slots) pos =
     (case idx (of_nat pos) of
        None \<Rightarrow> None
      | Some s \<Rightarrow> if pos < 256 \<and> s < length slots
                  then Some (Node48 ((idx(of_nat pos := None))) (slots[s := None])) else None)"
| "remove (Node256 arr) pos =
     (if pos < 256 \<and> arr (of_nat pos) \<noteq> None then Some (Node256 (arr(of_nat pos := None)))
      else None)"

text \<open>
  \<^verbatim>\<open>CopyPrefix\<close> of \<^verbatim>\<open>node.cpp\<close> on two nodes held by value: they are put in a store of
  two cells, the function runs, and the destination is read back.
\<close>

definition copy_prefix :: "ART \<Rightarrow> 'a Node_scheme \<Rightarrow> 'a Node_scheme \<Rightarrow> 'a Node_scheme option" where
  "copy_prefix art src dst = CopyPrefix art [0 \<mapsto> src, 1 \<mapsto> dst] 0 1 \<bind> (\<lambda>h. h 1)"

text \<open>A header and a layout put together, and the header of an inner node.\<close>

definition inner_of :: "Node \<Rightarrow> 'c layout \<Rightarrow> 'c inner" where
  "inner_of h lay =
     \<lparr>prefix_length = prefix_length h, count = count h, type = type h, prefix = prefix h,
      \<dots> = lay\<rparr>"

definition header_of :: "'c inner \<Rightarrow> Node" where
  "header_of n =
     \<lparr>prefix_length = prefix_length n, count = count n, type = type n, prefix = prefix n\<rparr>"

text \<open>Modelled from the spec: creating a node of a given variant (the missing derived
  constructors): the base constructor of \<^verbatim>\<open>node.cpp\<close> and the empty storage. The bytes
  of the new prefix buffer are taken as zero.\<close>

definition new_node :: "ART \<Rightarrow> NodeType \<Rightarrow> 'c inner" where
  "new_node art t = inner_of (Node_ctor art t (\<lambda>i. 0)) (empty_layout t)"

text \<open>Modelled from the spec: replacing a node by another variant, copying all
  existing (byte, child) pairs and the prefix (section 4.1; part of the missing
  \<^verbatim>\<open>insert\<close> and \<^verbatim>\<open>erase\<close> bodies). The prefix is copied by \<^verbatim>\<open>CopyPrefix\<close>.\<close>

definition resize :: "ART \<Rightarrow> NodeType \<Rightarrow> 'c inner \<Rightarrow> error + 'c inner" where
  "resize art t node =
     (case copy_prefix art node (new_node art t) of
        None \<Rightarrow> Inl OutOfBounds
      | Some n1 \<Rightarrow>
          (case copy_pairs (pairs_of (Node.more node)) (Node.more n1) of
             None \<Rightarrow> Inl OutOfBounds
           | Some lay \<Rightarrow> Inr (n1\<lparr>count := count node, Node.more := lay\<rparr>)))"

text \<open>Modelled from the spec: storing a pair in a node and counting it (section 4.1).\<close>

definition insert_into :: "'c inner \<Rightarrow> u8 \<Rightarrow> 'c \<Rightarrow> error + 'c inner" where
  "insert_into node b c =
     (case put (Node.more node) b c of
        None \<Rightarrow> Inl OutOfBounds
      | Some lay \<Rightarrow> Inr (node\<lparr>count := count node + 1, Node.more := lay\<rparr>))"

text \<open>Modelled from the spec: \<^verbatim>\<open>Node256::insert\<close>, \<^verbatim>\<open>Node48::insert\<close>,
  \<^verbatim>\<open>Node16::insert\<close> and \<^verbatim>\<open>Node4::insert\<close>, which \<^verbatim>\<open>node.cpp\<close> calls and does not
  define (section 4.1): if \<^verbatim>\<open>count == capacity\<close> the node is first replaced with the
  next larger variant, then the pair is inserted into the new node.\<close>

definition Node256_insert :: "ART \<Rightarrow> 'c inner \<Rightarrow> u8 \<Rightarrow> 'c \<Rightarrow> error + 'c inner" where
  "Node256_insert art node b c = insert_into node b c"

definition Node48_insert :: "ART \<Rightarrow> 'c inner \<Rightarrow> u8 \<Rightarrow> 'c \<Rightarrow> error + 'c inner" where
  "Node48_insert art node b c =
     (if count node = 48 then
        (case resize art N256 node of Inl e \<Rightarrow> Inl e | Inr n \<Rightarrow> Node256_insert art n b c)
      else insert_into node b c)"

definition Node16_insert :: "ART \<Rightarrow> 'c inner \<Rightarrow> u8 \<Rightarrow> 'c \<Rightarrow> error + 'c inner" where
  "Node16_insert art node b c =
     (if count node = 16 then
        (case resize art N48 node of Inl e \<Rightarrow> Inl e | Inr n \<Rightarrow> Node48_insert art n b c)
      else insert_into node b c)"

definition Node4_insert :: "ART \<Rightarrow> 'c inner \<Rightarrow> u8 \<Rightarrow> 'c \<Rightarrow> error + 'c inner" where
  "Node4_insert art node b c =
     (if count node = 4 then
        (case resize art N16 node of Inl e \<Rightarrow> Inl e | Inr n \<Rightarrow> Node16_insert art n b c)
      else insert_into node b c)"


text \<open>\<^verbatim>\<open>InsertChild\<close> is the dispatch \<^verbatim>\<open>Node::InsertLeaf\<close> of \<^verbatim>\<open>node.cpp\<close> over the four
  functions above.\<close>

definition InsertChild :: "ART \<Rightarrow> 'c inner \<Rightarrow> u8 \<Rightarrow> 'c \<Rightarrow> error + 'c inner" where
  "InsertChild = InsertLeaf Node4_insert Node16_insert Node48_insert Node256_insert"



text \<open>Modelled from the spec: removing the pair at a position from a node and
  counting it (section 4.1).\<close>

definition erase_from :: "'c inner \<Rightarrow> nat \<Rightarrow> error + 'c inner" where
  "erase_from node pos =
     (case remove (Node.more node) pos of
        None \<Rightarrow> Inl OutOfBounds
      | Some lay \<Rightarrow> Inr (node\<lparr>count := count node - 1, Node.more := lay\<rparr>))"

text \<open>Modelled from the spec: if resulting \<^verbatim>\<open>count\<close> falls below the shrink threshold,
  the caller replaces the node with the next smaller variant, copying surviving pairs
  and prefix (section 4.1). The threshold of each variant is a parameter.\<close>

definition shrink_if_below ::
  "(NodeType \<Rightarrow> nat) \<Rightarrow> ART \<Rightarrow> NodeType \<Rightarrow> 'c inner \<Rightarrow> error + 'c inner" where
  "shrink_if_below threshold art smaller node =
     (if unat (count node) < threshold (type node) then resize art smaller node else Inr node)"

text \<open>Modelled from the spec: \<^verbatim>\<open>Node4::erase\<close>, \<^verbatim>\<open>Node16::erase\<close>, \<^verbatim>\<open>Node48::erase\<close> and
  \<^verbatim>\<open>Node256::erase\<close>, which \<^verbatim>\<open>node.cpp\<close> calls and does not define (section 4.1).
  Node4 has no smaller variant.\<close>

definition Node4_erase :: "(NodeType \<Rightarrow> nat) \<Rightarrow> ART \<Rightarrow> 'c inner \<Rightarrow> nat \<Rightarrow> error + 'c inner" where
  "Node4_erase threshold art node pos = erase_from node pos"

definition Node16_erase :: "(NodeType \<Rightarrow> nat) \<Rightarrow> ART \<Rightarrow> 'c inner \<Rightarrow> nat \<Rightarrow> error + 'c inner" where
  "Node16_erase threshold art node pos =
     (case erase_from node pos of
        Inl e \<Rightarrow> Inl e
      | Inr n \<Rightarrow> shrink_if_below threshold art N4 n)"

definition Node48_erase :: "(NodeType \<Rightarrow> nat) \<Rightarrow> ART \<Rightarrow> 'c inner \<Rightarrow> nat \<Rightarrow> error + 'c inner" where
  "Node48_erase threshold art node pos =
     (case erase_from node pos of
        Inl e \<Rightarrow> Inl e
      | Inr n \<Rightarrow> shrink_if_below threshold art N16 n)"

definition Node256_erase :: "(NodeType \<Rightarrow> nat) \<Rightarrow> ART \<Rightarrow> 'c inner \<Rightarrow> nat \<Rightarrow> error + 'c inner" where
  "Node256_erase threshold art node pos =
     (case erase_from node pos of
        Inl e \<Rightarrow> Inl e
      | Inr n \<Rightarrow> shrink_if_below threshold art N48 n)"

text \<open>\<^verbatim>\<open>EraseChild\<close> is the dispatch \<^verbatim>\<open>Node::Erase\<close> of \<^verbatim>\<open>node.cpp\<close> over the four
  functions above.\<close>

definition EraseChild :: "(NodeType \<Rightarrow> nat) \<Rightarrow> ART \<Rightarrow> 'c inner \<Rightarrow> nat \<Rightarrow> error + 'c inner" where
  "EraseChild threshold =
     Erase (Node4_erase threshold) (Node16_erase threshold) (Node48_erase threshold)
       (Node256_erase threshold)"

text \<open>Modelled from the spec: the shrink threshold conventionally capacity/4
  (section 3); the constants of the missing \<^verbatim>\<open>erase\<close> bodies.\<close>

definition quarter_capacity :: "NodeType \<Rightarrow> nat" where
  "quarter_capacity t = capacity t div 4"

text \<open>Modelled from the spec: the invariants of section 3 on one node. Key bytes are
  unique within a node, Node16 keeps them in ascending order, no array is longer than
  its capacity; in Node48 the index and the occupied slots correspond one to one.\<close>

fun wf_layout :: "'c layout \<Rightarrow> bool" where
  "wf_layout (Node4 kvs) = (length kvs \<le> 4 \<and> distinct (map fst kvs))"
| "wf_layout (Node16 kvs) =
     (length kvs \<le> 16 \<and> sorted (map fst kvs) \<and> distinct (map fst kvs))"
| "wf_layout (Node48 idx slots) =
     (length slots = 48 \<and>
      (\<forall>b s. idx b = Some s \<longrightarrow> s < 48 \<and> slots ! s \<noteq> None) \<and>
      inj_on idx (dom idx) \<and>
      (\<forall>s<48. slots ! s \<noteq> None \<longrightarrow> (\<exists>b. idx b = Some s)))"
| "wf_layout (Node256 arr) = True"

text \<open>Modelled from the spec: a well-formed inner node. Its buffer is the one the
  constructor allocated, its tag names its layout, and \<^verbatim>\<open>count\<close> is the number of
  occupied child slots (section 3).\<close>

definition wf_node :: "ART \<Rightarrow> 'c inner \<Rightarrow> bool" where
  "wf_node art node \<longleftrightarrow>
     allocated_for art node \<and> type node = layout_type (Node.more node) \<and>
     wf_layout (Node.more node) \<and>
     unat (count node) = length (pairs_of (Node.more node))"



section \<open>The tree operations, modelled from the specification\<close>

text \<open>Modelled from the spec: the nodes of the tree (sections 2 and 3; the classes
  \<^verbatim>\<open>Leaf\<close> and \<^verbatim>\<open>ART\<close> are missing). A leaf holds its full key and the list of its row
  identifiers; an inner node holds the header of \<^verbatim>\<open>node.cpp\<close> and the layout with its
  children, which it owns.\<close>

datatype tree = Leaf Key "rowid list" | Inner Node "tree layout"

text \<open>Modelled from the spec: the ordinary outcomes of section 7, duplicate key on a
  unique index and key not found, beside success.\<close>

datatype status = Ok | DuplicateKey | NotFound

text \<open>An inner node as a tree.\<close>

definition tree_of :: "tree inner \<Rightarrow> tree" where
  "tree_of n = Inner (header_of n) (Node.more n)"

text \<open>Modelled from the spec: giving a node a prefix (sections 4.2 and 4.4; the code
  of \<^verbatim>\<open>art.cpp\<close> that does it is missing). The logical length is stored as it is, the
  bytes up to the physical capacity \<^verbatim>\<open>maxPrefix\<close> (section 3).\<close>

definition set_prefix :: "ART \<Rightarrow> 'a Node_scheme \<Rightarrow> u8 list \<Rightarrow> 'a Node_scheme" where
  "set_prefix art node bytes =
     (let n = min (length bytes) (unat (maxPrefix art)) in
      node\<lparr>prefix_length := of_nat (length bytes),
           prefix := take n bytes @ drop n (prefix node)\<rparr>)"

text \<open>Modelled from the spec: the length of the longest common byte span of two byte
  sequences (section 4.2, step 2).\<close>

fun common_span :: "Key \<Rightarrow> Key \<Rightarrow> nat" where
  "common_span (x # xs) (y # ys) = (if x = y then Suc (common_span xs ys) else 0)"
| "common_span xs ys = 0"

text \<open>Modelled from the spec: a new Node4 with a given prefix and two children keyed
  by their diverging bytes (section 4.2, steps 2 and 3).\<close>

definition new_branch :: "ART \<Rightarrow> u8 list \<Rightarrow> u8 \<Rightarrow> tree \<Rightarrow> u8 \<Rightarrow> tree \<Rightarrow> error + tree" where
  "new_branch art bytes b1 c1 b2 c2 =
     (case InsertChild art (set_prefix art (new_node art N4) bytes) b1 c1 of
        Inl e \<Rightarrow> Inl e
      | Inr n1 \<Rightarrow>
          (case InsertChild art n1 b2 c2 of
             Inl e \<Rightarrow> Inl e
           | Inr n2 \<Rightarrow> Inr (tree_of n2)))"

text \<open>Modelled from the spec: \<^verbatim>\<open>Insert\<close> below the root (section 4.2, steps 2 and 3;
  \<^verbatim>\<open>ART::insert\<close> is missing). At a leaf with the same key the row identifier is
  appended, or the duplicate is reported on a unique index; at a leaf with another key
  a Node4 with the common span as prefix takes the place of the leaf. At an inner node
  \<^verbatim>\<open>PrefixMismatch\<close> decides between splitting the prefix and going down. Reading a key
  byte past the end of a key is \<open>OutOfBounds\<close>.\<close>

function insert_at :: "ART \<Rightarrow> bool \<Rightarrow> tree \<Rightarrow> Key \<Rightarrow> rowid \<Rightarrow> nat \<Rightarrow> error + (status \<times> tree)" where
  "insert_at art unique (Leaf k rs) key rid depth =
     (if k = key then
        (if unique then Inr (DuplicateKey, Leaf k rs) else Inr (Ok, Leaf k (rs @ [rid])))
      else
        (let d = depth + common_span (drop depth k) (drop depth key) in
         if d < length k \<and> d < length key then
           (case new_branch art (take (d - depth) (drop depth key))
                   (k ! d) (Leaf k rs) (key ! d) (Leaf key [rid]) of
              Inl e \<Rightarrow> Inl e
            | Inr t \<Rightarrow> Inr (Ok, t))
         else Inl OutOfBounds))"
| "insert_at art unique (Inner h lay) key rid depth =
     (case PrefixMismatch art h key (of_nat depth) of
        Inl e \<Rightarrow> Inl e
      | Inr m \<Rightarrow>
          if m < prefix_length h then
            (let p = take (unat (prefix_length h)) (prefix h); i = unat m in
             case new_branch art (take i p)
                    (p ! i) (Inner (set_prefix art h (drop (Suc i) p)) lay)
                    (key ! (depth + i)) (Leaf key [rid]) of
               Inl e \<Rightarrow> Inl e
             | Inr t \<Rightarrow> Inr (Ok, t))
          else
            (let d = depth + unat (prefix_length h) in
             if d < length key then
               (case get_child lay (key ! d) of
                  None \<Rightarrow>
                    (case InsertChild art (inner_of h lay) (key ! d) (Leaf key [rid]) of
                       Inl e \<Rightarrow> Inl e
                     | Inr n \<Rightarrow> Inr (Ok, tree_of n))
                | Some c \<Rightarrow>
                    (case insert_at art unique c key rid (d + 1) of
                       Inl e \<Rightarrow> Inl e
                     | Inr (st, c') \<Rightarrow> Inr (st, Inner h (replace_child lay (key ! d) c'))))
             else Inl OutOfBounds))"
  by pat_completeness auto
termination
  by (relation "measure (\<lambda>(art, unique, t, key, rid, depth). length key - depth)") auto

declare insert_at.simps [simp del]



text \<open>Modelled from the spec: \<^verbatim>\<open>Insert(key, row_id)\<close> on a tree whose root may be null
  (section 4.2, step 1, and section 6). \<open>unique\<close> is the index policy.\<close>

definition Insert ::
  "ART \<Rightarrow> bool \<Rightarrow> tree option \<Rightarrow> Key \<Rightarrow> rowid \<Rightarrow> error + (status \<times> tree option)" where
  "Insert art unique root key rid =
     (case root of
        None \<Rightarrow> Inr (Ok, Some (Leaf key [rid]))
      | Some t \<Rightarrow>
          (case insert_at art unique t key rid 0 of
             Inl e \<Rightarrow> Inl e
           | Inr (st, t') \<Rightarrow> Inr (st, Some t')))"


text \<open>Inserting a list of pairs one after the other; a duplicate reported on a unique
  index does not stop the run, an error does.\<close>

fun insert_all ::
  "ART \<Rightarrow> bool \<Rightarrow> tree option \<Rightarrow> (Key \<times> rowid) list \<Rightarrow> error + tree option" where
  "insert_all art unique root [] = Inr root"
| "insert_all art unique root ((k, r) # ps) =
     (case Insert art unique root k r of
        Inl e \<Rightarrow> Inl e
      | Inr (st, root') \<Rightarrow> insert_all art unique root' ps)"



text \<open>Modelled from the spec: the merge of section 4.4 (missing with \<^verbatim>\<open>ART::erase\<close>):
  the parent's prefix and the key byte of the edge are folded into the sole child's
  prefix. A leaf has no prefix and is moved up as it is.\<close>

definition merge_prefix :: "ART \<Rightarrow> tree inner \<Rightarrow> u8 \<Rightarrow> tree \<Rightarrow> tree" where
  "merge_prefix art parent b child =
     (case child of
        Leaf k rs \<Rightarrow> Leaf k rs
      | Inner h lay \<Rightarrow>
          Inner (set_prefix art h
                   (take (unat (prefix_length parent)) (prefix parent) @ [b] @
                    take (unat (prefix_length h)) (prefix h))) lay)"

text \<open>Modelled from the spec: \<^verbatim>\<open>Erase\<close> below the root (section 4.4; \<^verbatim>\<open>ART::erase\<close> is
  missing). The descent is that of \<^verbatim>\<open>Search\<close>. At the leaf the row identifier is
  removed; an emptied leaf is removed from its parent by \<^verbatim>\<open>EraseChild\<close>, and a parent
  left with one child that is not the root is merged into that child. A pair that is
  not in the tree gives \<open>NotFound\<close> and the tree as it was.\<close>

function erase_at ::
  "(NodeType \<Rightarrow> nat) \<Rightarrow> ART \<Rightarrow> bool \<Rightarrow> tree \<Rightarrow> Key \<Rightarrow> rowid \<Rightarrow> nat
     \<Rightarrow> error + (status \<times> tree option)" where
  "erase_at threshold art is_root (Leaf k rs) key rid depth =
     (if k = key \<and> rid \<in> set rs then
        (if remove1 rid rs = [] then Inr (Ok, None) else Inr (Ok, Some (Leaf k (remove1 rid rs))))
      else Inr (NotFound, Some (Leaf k rs)))"
| "erase_at threshold art is_root (Inner h lay) key rid depth =
     (case PrefixMismatch art h key (of_nat depth) of
        Inl e \<Rightarrow> Inl e
      | Inr m \<Rightarrow>
          if m < prefix_length h then Inr (NotFound, Some (Inner h lay))
          else
            (let d = depth + unat (prefix_length h) in
             if d < length key then
               (case get_child lay (key ! d) of
                  None \<Rightarrow> Inr (NotFound, Some (Inner h lay))
                | Some c \<Rightarrow>
                    (case erase_at threshold art False c key rid (d + 1) of
                       Inl e \<Rightarrow> Inl e
                     | Inr (NotFound, r) \<Rightarrow> Inr (NotFound, Some (Inner h lay))
                     | Inr (st, Some c') \<Rightarrow>
                         Inr (st, Some (Inner h (replace_child lay (key ! d) c')))
                     | Inr (st, None) \<Rightarrow>
                         (case position_of lay (key ! d) of
                            None \<Rightarrow> Inl AssertionFailure
                          | Some pos \<Rightarrow>
                              (case EraseChild threshold art (inner_of h lay) pos of
                                 Inl e \<Rightarrow> Inl e
                               | Inr n \<Rightarrow>
                                   (case pairs_of (Node.more n) of
                                      [(b, c1)] \<Rightarrow>
                                        if is_root then Inr (st, Some (tree_of n))
                                        else Inr (st, Some (merge_prefix art n b c1))
                                    | ps \<Rightarrow> Inr (st, Some (tree_of n)))))))
             else Inl OutOfBounds))"
  by pat_completeness auto
termination
  by (relation "measure (\<lambda>(threshold, art, is_root, t, key, rid, depth). length key - depth)") auto

declare erase_at.simps [simp del]

text \<open>Modelled from the spec: \<^verbatim>\<open>Erase(key, row_id)\<close> on a tree whose root may be null
  (sections 4.4 and 6).\<close>

definition Erase_key ::
  "(NodeType \<Rightarrow> nat) \<Rightarrow> ART \<Rightarrow> tree option \<Rightarrow> Key \<Rightarrow> rowid \<Rightarrow> error + (status \<times> tree option)" where
  "Erase_key threshold art root key rid =
     (case root of
        None \<Rightarrow> Inr (NotFound, None)
      | Some t \<Rightarrow> erase_at threshold art True t key rid 0)"

text \<open>Modelled from the spec: where the read-only descent of sections 4.3 and 4.4 for
  a key cannot go on, read off the tree and the key. At a node whose prefix length
  exceeds \<^verbatim>\<open>maxPrefix\<close> the comparison is not implemented (section 7). Otherwise the key
  is compared with the prefix over their common span: when the key ends before the
  prefix does and before a byte differs, or when it ends where the byte that selects
  the child is due, the descent needs a key byte past the end of the key. \<open>None\<close>: the
  descent comes to its end, at a leaf or where the key leaves the tree.\<close>

function path_fault :: "ART \<Rightarrow> tree \<Rightarrow> Key \<Rightarrow> nat \<Rightarrow> error option" where
  "path_fault art (Leaf k rs) key depth = None"
| "path_fault art (Inner h lay) key depth =
     (if maxPrefix art < prefix_length h then Some NotImplementedException
      else
        (let d = depth + unat (prefix_length h);
             m = common_span (drop depth key) (take (unat (prefix_length h)) (prefix h)) in
         if m < unat (prefix_length h) then
           (if depth + m < length key then None else Some OutOfBounds)
         else if d < length key then
           (case get_child lay (key ! d) of
              None \<Rightarrow> None
            | Some c \<Rightarrow> path_fault art c key (d + 1))
         else Some OutOfBounds))"
  by pat_completeness auto
termination
  by (relation "measure (\<lambda>(art, t, key, depth). length key - depth)") auto

declare path_fault.simps [simp del]

definition root_fault :: "ART \<Rightarrow> tree option \<Rightarrow> Key \<Rightarrow> error option" where
  "root_fault art root key = (case root of None \<Rightarrow> None | Some t \<Rightarrow> path_fault art t key 0)"

text \<open>Every inner node of a tree has the prefix buffer that the constructor of
  \<^verbatim>\<open>node.cpp\<close> allocates for this tree.\<close>

primrec alloc_tree :: "ART \<Rightarrow> tree \<Rightarrow> bool" where
  "alloc_tree art (Leaf k rs) = True"
| "alloc_tree art (Inner h lay) =
     (allocated_for art h \<and> (\<forall>a \<in> set_layout (map_layout (alloc_tree art) lay). a))"

definition root_alloc :: "ART \<Rightarrow> tree option \<Rightarrow> bool" where
  "root_alloc art root = (case root of None \<Rightarrow> True | Some t \<Rightarrow> alloc_tree art t)"

text \<open>The contents of a tree: its leaves, each a key with its row identifiers.\<close>

primrec entries :: "tree \<Rightarrow> (Key \<times> rowid list) set" where
  "entries (Leaf k rs) = {(k, rs)}"
| "entries (Inner h lay) = \<Union> (set_layout (map_layout entries lay))"

text \<open>A pair (key, row identifier) is present in a tree when a leaf with that key
  holds the row identifier.\<close>

definition present :: "tree option \<Rightarrow> Key \<Rightarrow> rowid \<Rightarrow> bool" where
  "present root key rid \<longleftrightarrow>
     (case root of None \<Rightarrow> False | Some t \<Rightarrow> \<exists>rs. (key, rs) \<in> entries t \<and> rid \<in> set rs)"

text \<open>Modelled from the spec: the invariants of section 3 on a subtree entered at
  depth \<open>d\<close>, for keys of one length \<open>n\<close>. Every inner node is well formed and lies
  above the last key byte; the keys below a child agree with the child's key byte at
  the node's branching position, and with the stored prefix bytes of the node over the
  span of the prefix. With \<open>strict\<close> no prefix is longer than the physical capacity.\<close>

primrec tree_inv :: "ART \<Rightarrow> bool \<Rightarrow> nat \<Rightarrow> tree \<Rightarrow> nat \<Rightarrow> bool" where
  "tree_inv art strict n (Leaf k rs) = (\<lambda>d. length k = n)"
| "tree_inv art strict n (Inner h lay) = (\<lambda>d.
     (strict \<longrightarrow> prefix_length h \<le> maxPrefix art) \<and>
     wf_node art (inner_of h lay) \<and>
     d + unat (prefix_length h) < n \<and>
     (\<forall>f \<in> set_layout (map_layout (tree_inv art strict n) lay).
        f (Suc (d + unat (prefix_length h)))) \<and>
     (\<forall>b c. get_child lay b = Some c \<longrightarrow>
        (\<forall>e \<in> entries c. fst e ! (d + unat (prefix_length h)) = b)) \<and>
     (\<forall>e \<in> entries (Inner h lay).
        \<forall>i < min (unat (prefix_length h)) (unat (maxPrefix art)). fst e ! (d + i) = prefix h ! i))"





subsection \<open>Example nodes and trees\<close>




text \<open>The tree that holds the keys 1,1,1,2 and 1,1,1,3 when \<^verbatim>\<open>maxPrefix = 1\<close>: the
  common span has three bytes, one of them is stored.\<close>

definition tree1 :: tree where
  "tree1 = Inner \<lparr>prefix_length = 3, count = 2, type = N4, prefix = [1]\<rparr>
             (Node4 [(2, Leaf [1, 1, 1, 2] [1]), (3, Leaf [1, 1, 1, 3] [2])])"

text \<open>The tree that holds the keys 7,1 and 7,2 when \<^verbatim>\<open>maxPrefix = 2\<close>.\<close>

definition tree2 :: tree where
  "tree2 = Inner \<lparr>prefix_length = 1, count = 2, type = N4, prefix = [7, 0]\<rparr>
             (Node4 [(1, Leaf [7, 1] [10]), (2, Leaf [7, 2] [20])])"

section \<open>Properties of node.cpp\<close>

subsection \<open>Word arithmetic of the loop counter\<close>

lemma unat_u32_bound: "unat (w::u32) < 2 ^ 32"
proof -
  have "unat w < 2 ^ LENGTH(32)" by (rule unsigned_less)
  then show ?thesis by simp
qed

lemma unat_ucast_u32_u64: "unat (ucast (w::u32) :: u64) = unat w"
proof -
  have "unat w < 2 ^ 64" using unat_u32_bound [of w] by simp
  then show ?thesis by (simp add: unsigned_ucast_eq take_bit_nat_eq_self)
qed

lemma less_ucast_u32_iff: "(pos :: u64) < ucast (w::u32) \<longleftrightarrow> unat pos < unat w"
  by (simp add: word_less_nat_alt unat_ucast_u32_u64)

lemma unat_ucast_u64_u32: "unat (ucast (r::u64) :: u32) = unat r" if "unat r \<le> unat (w::u32)"
proof -
  have "unat r < 2 ^ 32" using unat_u32_bound [of w] that by simp
  then show ?thesis by (simp add: unsigned_ucast_eq take_bit_nat_eq_self)
qed

lemma unat_add_no_wrap: "unat (depth + pos :: u64) = unat depth + unat pos" if "unat depth + unat pos < 2 ^ 64"
  using that by (simp add: unat_word_ariths)

lemma unat_succ_below_u32: "unat (pos + 1 :: u64) = Suc (unat pos)" if "unat pos < unat (w :: u32)"
proof -
  have "unat pos + 1 < 2 ^ 64" using unat_u32_bound [of w] that by simp
  then show ?thesis by (simp add: unat_word_ariths)
qed

subsection \<open>The comparison loop\<close>

text \<open>
  From any counter value inside the prefix the loop returns, at the first position from
  there on where key and prefix differ, or at the end of the prefix.
\<close>

lemma PrefixMismatch_loop_result:
  assumes "unat depth + unat (prefix_length node) \<le> length key"
    and "length key < 2 ^ 64"
    and "unat (prefix_length node) \<le> length (prefix node)"
    and "unat pos \<le> unat (prefix_length node)"
  shows "\<exists>r. snd (PrefixMismatch_loop node key depth pos tr) = Inr r \<and>
           unat pos \<le> unat r \<and> unat r \<le> unat (prefix_length node) \<and>
           (\<forall>p. unat pos \<le> p \<and> p < unat r \<longrightarrow> key ! (unat depth + p) = prefix node ! p) \<and>
           (unat r < unat (prefix_length node) \<longrightarrow>
              key ! (unat depth + unat r) \<noteq> prefix node ! unat r)"
  using assms
proof (induction node key depth pos tr rule: PrefixMismatch_loop.induct)
  case (1 node key depth pos tr)
  show ?case
  proof (cases "pos < ucast (prefix_length node)")
    case False
    then have "unat pos = unat (prefix_length node)"
      using "1.prems"(4) by (simp add: less_ucast_u32_iff)
    moreover have "PrefixMismatch_loop node key depth pos tr = (tr, Inr pos)"
      using False by (simp add: PrefixMismatch_loop.simps [of node key depth pos tr])
    ultimately show ?thesis by auto
  next
    case True
    then have lt: "unat pos < unat (prefix_length node)"
      by (simp add: less_ucast_u32_iff)
    have i: "unat (depth + pos) = unat depth + unat pos"
      using lt "1.prems"(1,2) by (intro unat_add_no_wrap) simp
    have inb: "\<not> (length key \<le> unat (depth + pos) \<or> length (prefix node) \<le> unat pos)"
      using lt "1.prems"(1,3) i by simp
    show ?thesis
    proof (cases "key ! unat (depth + pos) \<noteq> prefix node ! unat pos")
      case neq: True
      have "PrefixMismatch_loop node key depth pos tr =
              (tr @ [KeyRead (unat (depth + pos)), PrefixRead (unat pos)], Inr pos)"
        using True inb neq by (simp add: PrefixMismatch_loop.simps [of node key depth pos tr] Let_def)
      then show ?thesis using neq i lt by auto
    next
      case eq: False
      have step: "PrefixMismatch_loop node key depth pos tr =
              PrefixMismatch_loop node key depth (pos + 1)
                (tr @ [KeyRead (unat (depth + pos)), PrefixRead (unat pos)])"
        using True inb eq by (simp add: PrefixMismatch_loop.simps [of node key depth pos tr] Let_def)
      have suc: "unat (pos + 1) = Suc (unat pos)"
        using lt by (rule unat_succ_below_u32)
      have "\<exists>r. snd (PrefixMismatch_loop node key depth (pos + 1)
                (tr @ [KeyRead (unat (depth + pos)), PrefixRead (unat pos)])) = Inr r \<and>
           unat (pos + 1) \<le> unat r \<and> unat r \<le> unat (prefix_length node) \<and>
           (\<forall>p. unat (pos + 1) \<le> p \<and> p < unat r \<longrightarrow> key ! (unat depth + p) = prefix node ! p) \<and>
           (unat r < unat (prefix_length node) \<longrightarrow>
              key ! (unat depth + unat r) \<noteq> prefix node ! unat r)"
        using True inb eq "1.prems" suc lt
        by (intro "1.IH" [OF True refl refl refl inb eq]) simp_all
      then obtain r where r: "snd (PrefixMismatch_loop node key depth (pos + 1)
                (tr @ [KeyRead (unat (depth + pos)), PrefixRead (unat pos)])) = Inr r"
          "Suc (unat pos) \<le> unat r" "unat r \<le> unat (prefix_length node)"
          "\<forall>p. Suc (unat pos) \<le> p \<and> p < unat r \<longrightarrow> key ! (unat depth + p) = prefix node ! p"
          "unat r < unat (prefix_length node) \<longrightarrow>
              key ! (unat depth + unat r) \<noteq> prefix node ! unat r"
        unfolding suc by blast
      have "\<forall>p. unat pos \<le> p \<and> p < unat r \<longrightarrow> key ! (unat depth + p) = prefix node ! p"
      proof (intro allI impI)
        fix p assume p: "unat pos \<le> p \<and> p < unat r"
        show "key ! (unat depth + p) = prefix node ! p"
        proof (cases "p = unat pos")
          case True
          then show ?thesis using eq i by simp
        next
          case False
          then show ?thesis using p r(4) by simp
        qed
      qed
      then show ?thesis using r step by auto
    qed
  qed
qed

text \<open>Every read the loop adds to the record is in range.\<close>

lemma PrefixMismatch_loop_trace:
  assumes "unat depth + unat (prefix_length node) \<le> length key"
    and "length key < 2 ^ 64"
    and "unat (prefix_length node) \<le> length (prefix node)"
    and "list_all (access_in_range node key depth) tr"
  shows "list_all (access_in_range node key depth) (fst (PrefixMismatch_loop node key depth pos tr))"
  using assms
proof (induction node key depth pos tr rule: PrefixMismatch_loop.induct)
  case (1 node key depth pos tr)
  show ?case
  proof (cases "pos < ucast (prefix_length node)")
    case False
    then have "PrefixMismatch_loop node key depth pos tr = (tr, Inr pos)"
      by (simp add: PrefixMismatch_loop.simps [of node key depth pos tr])
    then show ?thesis using "1.prems"(4) by simp
  next
    case True
    then have lt: "unat pos < unat (prefix_length node)"
      by (simp add: less_ucast_u32_iff)
    have i: "unat (depth + pos) = unat depth + unat pos"
      using lt "1.prems"(1,2) by (intro unat_add_no_wrap) simp
    have inb: "\<not> (length key \<le> unat (depth + pos) \<or> length (prefix node) \<le> unat pos)"
      using lt "1.prems"(1,3) i by simp
    have "access_in_range node key depth (KeyRead (unat (depth + pos)))"
      and "access_in_range node key depth (PrefixRead (unat pos))"
      using "1.prems"(1,3) lt i by (simp_all add: access_in_range_def)
    then have tr': "list_all (access_in_range node key depth)
                 (tr @ [KeyRead (unat (depth + pos)), PrefixRead (unat pos)])"
      using "1.prems"(4) by simp
    show ?thesis
    proof (cases "key ! unat (depth + pos) \<noteq> prefix node ! unat pos")
      case neq: True
      have "PrefixMismatch_loop node key depth pos tr =
              (tr @ [KeyRead (unat (depth + pos)), PrefixRead (unat pos)], Inr pos)"
        using True inb neq by (simp add: PrefixMismatch_loop.simps [of node key depth pos tr] Let_def)
      then show ?thesis using tr' by simp
    next
      case eq: False
      have step: "PrefixMismatch_loop node key depth pos tr =
              PrefixMismatch_loop node key depth (pos + 1)
                (tr @ [KeyRead (unat (depth + pos)), PrefixRead (unat pos)])"
        using True inb eq by (simp add: PrefixMismatch_loop.simps [of node key depth pos tr] Let_def)
      show ?thesis
        unfolding step
        using "1.prems"(1,2,3) tr'
        by (intro "1.IH" [OF True refl refl refl inb eq])
    qed
  qed
qed

lemma PrefixMismatch_loop_no_throw:
  "snd (PrefixMismatch_loop node key depth pos tr) \<noteq> Inl NotImplementedException"
proof (induction node key depth pos tr rule: PrefixMismatch_loop.induct)
  case (1 node key depth pos tr)
  show ?case
    using "1.IH"
    by (subst PrefixMismatch_loop.simps) (simp add: Let_def)
qed

lemma PrefixMismatch_traced_no_throw:
  "prefix_length node \<le> maxPrefix art \<Longrightarrow>
   PrefixMismatch art node key depth \<noteq> Inl NotImplementedException"
  using PrefixMismatch_loop_no_throw [of node key depth 0 "[]"]
  by (auto simp: PrefixMismatch_def PrefixMismatch_traced_def split: prod.splits sum.splits)

lemma allocated_for_bound:
  "allocated_for art node \<Longrightarrow> prefix_length node \<le> maxPrefix art \<Longrightarrow>
   unat (prefix_length node) \<le> length (prefix node)"
  by (simp add: allocated_for_def word_le_nat_alt)

lemma PrefixMismatch_returns:
  assumes "prefix_length node \<le> maxPrefix art" and "allocated_for art node"
    and "unat depth + unat (prefix_length node) \<le> length key" and "length key < 2 ^ 64"
  shows "\<exists>tr r. PrefixMismatch_traced art node key depth = (tr, Inr r) \<and>
           unat r \<le> unat (prefix_length node) \<and>
           (\<forall>p<unat r. key ! (unat depth + p) = prefix node ! p) \<and>
           (unat r < unat (prefix_length node) \<longrightarrow>
              key ! (unat depth + unat r) \<noteq> prefix node ! unat r) \<and>
           list_all (access_in_range node key depth) tr"
proof -
  have b: "unat (prefix_length node) \<le> length (prefix node)"
    using assms(1,2) by (simp add: allocated_for_bound)
  obtain tr res where l: "PrefixMismatch_loop node key depth 0 [] = (tr, res)"
    by (cases "PrefixMismatch_loop node key depth 0 []")
  from PrefixMismatch_loop_result [OF assms(3,4) b, of 0 "[]"] l
  obtain pos where pos: "res = Inr pos" "unat pos \<le> unat (prefix_length node)"
      "\<forall>p. p < unat pos \<longrightarrow> key ! (unat depth + p) = prefix node ! p"
      "unat pos < unat (prefix_length node) \<longrightarrow>
              key ! (unat depth + unat pos) \<noteq> prefix node ! unat pos"
    by auto
  have t: "list_all (access_in_range node key depth) tr"
    using PrefixMismatch_loop_trace [OF assms(3,4) b, of "[]" 0] l by simp
  define r :: u32 where "r = ucast pos"
  have "unat r = unat pos"
    unfolding r_def using pos(2) by (rule unat_ucast_u64_u32)
  moreover have "PrefixMismatch_traced art node key depth = (tr, Inr r)"
    using l pos(1) assms(1) by (simp add: PrefixMismatch_traced_def r_def)
  ultimately show ?thesis
    using pos t by auto
qed

subsection \<open>The constructor\<close>

lemma Node_ctor_allocated: "allocated_for art (Node_ctor art t fresh)"
  by (simp add: allocated_for_def Node_ctor_def)

text \<open>
  C8. A node made by the constructor has \<open>prefix_length = 0\<close> and \<open>count = 0\<close>, whatever
  tag it is made with; the tag is the one given.
\<close>

theorem Node_ctor_starts_empty:
  "prefix_length (Node_ctor art t fresh) = 0 \<and> count (Node_ctor art t fresh) = 0 \<and>
   type (Node_ctor art t fresh) = t"
  by (simp add: Node_ctor_def)

subsection \<open>PrefixMismatch\<close>

text \<open>
  C1. For a node of this tree whose \<open>prefix_length\<close> is at most \<open>maxPrefix\<close>, and a key
  that can be read at the positions \<open>depth \<dots> depth + prefix_length - 1\<close>,
  \<open>PrefixMismatch\<close> returns an offset \<open>r \<le> prefix_length\<close> such that key and prefix
  agree at every offset below \<open>r\<close> and, when \<open>r < prefix_length\<close>, differ at \<open>r\<close>: the
  smallest mismatching offset, or \<open>prefix_length\<close> when all stored bytes match.
  (Keys are shorter than \<open>2\<^sup>6\<^sup>4\<close> bytes, their length being a 64-bit count.)
\<close>

theorem PrefixMismatch_first_mismatch:
  assumes "prefix_length node \<le> maxPrefix art" and "allocated_for art node"
    and "unat depth + unat (prefix_length node) \<le> length key" and "length key < 2 ^ 64"
  shows "\<exists>r. PrefixMismatch art node key depth = Inr r \<and>
           unat r \<le> unat (prefix_length node) \<and>
           (\<forall>p<unat r. key ! (unat depth + p) = prefix node ! p) \<and>
           (unat r < unat (prefix_length node) \<longrightarrow>
              key ! (unat depth + unat r) \<noteq> prefix node ! unat r)"
  using PrefixMismatch_returns [OF assms] by (auto simp: PrefixMismatch_def)

theorem PrefixMismatch_first_mismatch_witness:
  "PrefixMismatch \<lparr>maxPrefix = 4\<rparr> node0 [9, 1, 2, 4, 5] 1 = Inr 2 \<and>
   (\<exists>r. PrefixMismatch \<lparr>maxPrefix = 4\<rparr> node0 [9, 1, 2, 4, 5] 1 = Inr r \<and>
           unat r \<le> unat (prefix_length node0) \<and>
           (\<forall>p<unat r. [9, 1, 2, 4, 5] ! (unat (1 :: u64) + p) = prefix node0 ! p) \<and>
           (unat r < unat (prefix_length node0) \<longrightarrow>
              [9, 1, 2, 4, 5] ! (unat (1 :: u64) + unat r) \<noteq> prefix node0 ! unat r))"
proof
  show "PrefixMismatch \<lparr>maxPrefix = 4\<rparr> node0 [9, 1, 2, 4, 5] 1 = Inr 2"
    by code_simp
  show "\<exists>r. PrefixMismatch \<lparr>maxPrefix = 4\<rparr> node0 [9, 1, 2, 4, 5] 1 = Inr r \<and>
           unat r \<le> unat (prefix_length node0) \<and>
           (\<forall>p<unat r. [9, 1, 2, 4, 5] ! (unat (1 :: u64) + p) = prefix node0 ! p) \<and>
           (unat r < unat (prefix_length node0) \<longrightarrow>
              [9, 1, 2, 4, 5] ! (unat (1 :: u64) + unat r) \<noteq> prefix node0 ! unat r)"
    by (rule PrefixMismatch_first_mismatch) (simp_all add: node0_def allocated_for_def)
qed

text \<open>
  C2. \<open>PrefixMismatch\<close> throws the not-implemented exception exactly when
  \<open>prefix_length\<close> exceeds \<open>maxPrefix\<close>; when \<open>prefix_length\<close> is at most \<open>maxPrefix\<close>
  (and the key can be read over the span of the prefix) it returns a value.
\<close>

theorem PrefixMismatch_throws_iff:
  "(PrefixMismatch art node key depth = Inl NotImplementedException
      \<longleftrightarrow> maxPrefix art < prefix_length node) \<and>
   (prefix_length node \<le> maxPrefix art \<and> allocated_for art node \<and>
    unat depth + unat (prefix_length node) \<le> length key \<and> length key < 2 ^ 64
      \<longrightarrow> (\<exists>r. PrefixMismatch art node key depth = Inr r))"
proof (intro conjI impI)
  show "PrefixMismatch art node key depth = Inl NotImplementedException
      \<longleftrightarrow> maxPrefix art < prefix_length node"
  proof (cases "prefix_length node \<le> maxPrefix art")
    case True
    then show ?thesis
      using PrefixMismatch_traced_no_throw [of node art key depth] by auto
  next
    case False
    then show ?thesis
      by (auto simp: PrefixMismatch_def PrefixMismatch_traced_def)
  qed
next
  assume "prefix_length node \<le> maxPrefix art \<and> allocated_for art node \<and>
    unat depth + unat (prefix_length node) \<le> length key \<and> length key < 2 ^ 64"
  then show "\<exists>r. PrefixMismatch art node key depth = Inr r"
    using PrefixMismatch_returns [of node art depth key] by (auto simp: PrefixMismatch_def)
qed

theorem PrefixMismatch_throws_iff_witness:
  "PrefixMismatch \<lparr>maxPrefix = 2\<rparr> node1 [9, 1, 2, 4, 5] 1 = Inl NotImplementedException \<and>
   (\<exists>r. PrefixMismatch \<lparr>maxPrefix = 4\<rparr> node0 [9, 1, 2, 4, 5] 1 = Inr r)"
proof -
  have "maxPrefix \<lparr>maxPrefix = 2\<rparr> < prefix_length node1"
    by (simp add: node1_def)
  moreover have "prefix_length node0 \<le> maxPrefix \<lparr>maxPrefix = 4\<rparr> \<and>
      allocated_for \<lparr>maxPrefix = 4\<rparr> node0 \<and>
      unat (1 :: u64) + unat (prefix_length node0) \<le> length [9, 1, 2, 4, 5 :: u8] \<and>
      length [9, 1, 2, 4, 5 :: u8] < 2 ^ 64"
    by (simp add: node0_def allocated_for_def)
  ultimately show ?thesis
    using PrefixMismatch_throws_iff [of "\<lparr>maxPrefix = 2\<rparr>" node1 "[9, 1, 2, 4, 5]" 1]
      PrefixMismatch_throws_iff [of "\<lparr>maxPrefix = 4\<rparr>" node0 "[9, 1, 2, 4, 5]" 1]
    by blast
qed

text \<open>
  C10. Under \<open>prefix_length \<le> maxPrefix\<close> and \<open>depth + prefix_length \<le> length key\<close> the
  function returns a value between \<open>0\<close> and \<open>prefix_length\<close>, and every read it made is
  in range: key positions \<open>depth \<dots> depth + prefix_length - 1\<close> and buffer positions
  \<open>0 \<dots> prefix_length - 1\<close>, all inside their arrays.
\<close>

theorem PrefixMismatch_reads_in_bounds:
  assumes "prefix_length node \<le> maxPrefix art" and "allocated_for art node"
    and "unat depth + unat (prefix_length node) \<le> length key" and "length key < 2 ^ 64"
  shows "\<exists>tr r. PrefixMismatch_traced art node key depth = (tr, Inr r) \<and>
           0 \<le> r \<and> r \<le> prefix_length node \<and>
           list_all (access_in_range node key depth) tr"
  using PrefixMismatch_returns [OF assms] by (auto simp: word_le_nat_alt)

theorem PrefixMismatch_reads_in_bounds_witness:
  "PrefixMismatch_traced \<lparr>maxPrefix = 4\<rparr> node0 [9, 1, 2, 4, 5] 1 =
     ([KeyRead 1, PrefixRead 0, KeyRead 2, PrefixRead 1, KeyRead 3, PrefixRead 2], Inr 2) \<and>
   (\<exists>tr r. PrefixMismatch_traced \<lparr>maxPrefix = 4\<rparr> node0 [9, 1, 2, 4, 5] 1 = (tr, Inr r) \<and>
           0 \<le> r \<and> r \<le> prefix_length node0 \<and>
           list_all (access_in_range node0 [9, 1, 2, 4, 5] 1) tr)"
proof
  show "PrefixMismatch_traced \<lparr>maxPrefix = 4\<rparr> node0 [9, 1, 2, 4, 5] 1 =
     ([KeyRead 1, PrefixRead 0, KeyRead 2, PrefixRead 1, KeyRead 3, PrefixRead 2], Inr 2)"
    by code_simp
  show "\<exists>tr r. PrefixMismatch_traced \<lparr>maxPrefix = 4\<rparr> node0 [9, 1, 2, 4, 5] 1 = (tr, Inr r) \<and>
           0 \<le> r \<and> r \<le> prefix_length node0 \<and>
           list_all (access_in_range node0 [9, 1, 2, 4, 5] 1) tr"
    by (rule PrefixMismatch_reads_in_bounds) (simp_all add: node0_def allocated_for_def)
qed

subsection \<open>CopyPrefix\<close>

text \<open>The store that \<open>CopyPrefix\<close> leaves, for two nodes of this tree.\<close>

lemma CopyPrefix_result:
  assumes "h src = Some s" and "h dst = Some d"
    and "allocated_for art s" and "allocated_for art d"
  shows "CopyPrefix art h src dst =
           Some (h(dst \<mapsto> d\<lparr>prefix_length := prefix_length s,
                           prefix := take (min (unat (prefix_length s)) (unat (maxPrefix art))) (prefix s)
                                     @ drop (min (unat (prefix_length s)) (unat (maxPrefix art))) (prefix d)\<rparr>))"
proof -
  have n: "unat (min (prefix_length x) (maxPrefix art)) =
           min (unat (prefix_length x)) (unat (maxPrefix art))" for x :: "'a Node_scheme"
    by (simp add: min_def word_le_nat_alt)
  show ?thesis
  proof (cases "src = dst")
    case True
    then have "s = d" using assms(1,2) by simp
    then show ?thesis
      using True assms by (simp add: CopyPrefix_def memcpy_def allocated_for_def n)
  next
    case False
    then show ?thesis
      using assms by (simp add: CopyPrefix_def memcpy_def allocated_for_def n)
  qed
qed

text \<open>
  C3. \<open>CopyPrefix\<close> gives \<open>dst\<close> the \<open>prefix_length\<close> of \<open>src\<close> as it is (also when it
  exceeds \<open>maxPrefix\<close>) and copies exactly \<open>min prefix_length maxPrefix\<close> bytes: the
  first that many bytes of \<open>dst\<close>'s buffer are those of \<open>src\<close>, the bytes behind them
  are the ones \<open>dst\<close> had.
\<close>

theorem CopyPrefix_copies:
  assumes "h src = Some s" and "h dst = Some d"
    and "allocated_for art s" and "allocated_for art d"
  shows "\<exists>h' d'. CopyPrefix art h src dst = Some h' \<and> h' dst = Some d' \<and>
           prefix_length d' = prefix_length s \<and>
           length (prefix d') = length (prefix d) \<and>
           take (min (unat (prefix_length s)) (unat (maxPrefix art))) (prefix d') =
             take (min (unat (prefix_length s)) (unat (maxPrefix art))) (prefix s) \<and>
           drop (min (unat (prefix_length s)) (unat (maxPrefix art))) (prefix d') =
             drop (min (unat (prefix_length s)) (unat (maxPrefix art))) (prefix d)"
  using assms(3,4) by (simp add: CopyPrefix_result [OF assms] allocated_for_def)

theorem CopyPrefix_copies_witness:
  "\<exists>h' d'. CopyPrefix \<lparr>maxPrefix = 4\<rparr> heap0 16 32 = Some h' \<and>
           h' 32 = Some d' \<and> prefix_length d' = 9 \<and> prefix d' = [1, 2, 3, 4]"
proof -
  have h: "heap0 16 = Some node3" "heap0 32 = Some node2"
    "allocated_for \<lparr>maxPrefix = 4\<rparr> node3" "allocated_for \<lparr>maxPrefix = 4\<rparr> node2"
    by (simp_all add: heap0_def node2_def node3_def allocated_for_def)
  from CopyPrefix_copies [OF h] obtain h' d' where
    *: "CopyPrefix \<lparr>maxPrefix = 4\<rparr> heap0 16 32 = Some h'" "h' 32 = Some d'"
      "prefix_length d' = prefix_length node3"
      "length (prefix d') = length (prefix node2)"
      "take (min (unat (prefix_length node3)) (unat (maxPrefix \<lparr>maxPrefix = 4\<rparr>))) (prefix d') =
         take (min (unat (prefix_length node3)) (unat (maxPrefix \<lparr>maxPrefix = 4\<rparr>))) (prefix node3)"
    by blast
  from *(4,5) have "prefix d' = [1, 2, 3, 4]"
    by (simp add: node2_def node3_def)
  with * show ?thesis
    by (simp add: node3_def)
qed

text \<open>
  C9. \<open>CopyPrefix\<close> leaves the source node and every node other than \<open>dst\<close> as they
  were; of \<open>dst\<close> it changes nothing but \<open>prefix_length\<close> and the first
  \<open>min prefix_length maxPrefix\<close> bytes of the buffer: \<open>count\<close>, the tag and the fields
  of the derived class (keys and children) stay.
\<close>

theorem CopyPrefix_frame:
  assumes "h src = Some s" and "h dst = Some d"
    and "allocated_for art s" and "allocated_for art d"
  shows "\<exists>h' d'. CopyPrefix art h src dst = Some h' \<and>
           h' src = h src \<and>
           (\<forall>p. p \<noteq> dst \<longrightarrow> h' p = h p) \<and>
           h' dst = Some d' \<and>
           d'\<lparr>prefix_length := prefix_length d, prefix := prefix d\<rparr> = d \<and>
           count d' = count d \<and> type d' = type d \<and> Node.more d' = Node.more d \<and>
           length (prefix d') = length (prefix d) \<and>
           drop (min (unat (prefix_length s)) (unat (maxPrefix art))) (prefix d') =
             drop (min (unat (prefix_length s)) (unat (maxPrefix art))) (prefix d)"
proof -
  note r = CopyPrefix_result [OF assms]
  show ?thesis
  proof (cases "src = dst")
    case True
    then have "s = d" using assms(1,2) by simp
    then show ?thesis
      unfolding r using True assms(2,3,4) by (simp add: allocated_for_def)
  next
    case False
    then show ?thesis
      unfolding r using assms by (simp add: allocated_for_def)
  qed
qed

theorem CopyPrefix_frame_witness:
  "\<exists>h' d'. CopyPrefix \<lparr>maxPrefix = 4\<rparr> heap0 16 32 = Some h' \<and>
           h' 16 = Some node3 \<and> h' 48 = None \<and> h' 32 = Some d' \<and>
           count d' = 0 \<and> type d' = N16 \<and> length (prefix d') = 4"
proof -
  have h: "heap0 16 = Some node3" "heap0 32 = Some node2"
    "allocated_for \<lparr>maxPrefix = 4\<rparr> node3" "allocated_for \<lparr>maxPrefix = 4\<rparr> node2"
    by (simp_all add: heap0_def node2_def node3_def allocated_for_def)
  from CopyPrefix_frame [OF h] obtain h' d' where
    *: "CopyPrefix \<lparr>maxPrefix = 4\<rparr> heap0 16 32 = Some h'" "h' 16 = heap0 16"
      "\<forall>p. p \<noteq> 32 \<longrightarrow> h' p = heap0 p" "h' 32 = Some d'"
      "count d' = count node2" "type d' = type node2" "length (prefix d') = length (prefix node2)"
    by blast
  from *(3) have "h' 48 = heap0 48" by simp
  with * show ?thesis
    by (simp add: heap0_def node2_def)
qed

subsection \<open>The dispatch functions\<close>

text \<open>
  C6. For a node tagged \<open>N4\<close>, \<open>N16\<close>, \<open>N48\<close> or \<open>N256\<close>, \<open>InsertLeaf\<close> and \<open>Erase\<close>
  do what the function of that layout does and never reach the default branch; for a
  node with any other tag both end in the failed assertion, which is not a recoverable
  error.
\<close>

theorem dispatch_default_branch:
  "(type node = N4 \<longrightarrow> InsertLeaf i4 i16 i48 i256 art node k c = i4 art node k c \<and>
                        Erase e4 e16 e48 e256 art node pos = e4 art node pos) \<and>
   (type node = N16 \<longrightarrow> InsertLeaf i4 i16 i48 i256 art node k c = i16 art node k c \<and>
                        Erase e4 e16 e48 e256 art node pos = e16 art node pos) \<and>
   (type node = N48 \<longrightarrow> InsertLeaf i4 i16 i48 i256 art node k c = i48 art node k c \<and>
                        Erase e4 e16 e48 e256 art node pos = e48 art node pos) \<and>
   (type node = N256 \<longrightarrow> InsertLeaf i4 i16 i48 i256 art node k c = i256 art node k c \<and>
                        Erase e4 e16 e48 e256 art node pos = e256 art node pos) \<and>
   (type node \<notin> {N4, N16, N48, N256} \<longrightarrow>
      InsertLeaf i4 i16 i48 i256 art node k c = Inl AssertionFailure \<and>
      Erase e4 e16 e48 e256 art node pos = Inl AssertionFailure \<and>
      \<not> recoverable AssertionFailure)"
  by (cases "type node") (simp_all add: InsertLeaf_def Erase_def recoverable_def)

theorem dispatch_default_branch_witness:
  "InsertLeaf (\<lambda>art n k c. Inr (4 :: nat)) (\<lambda>art n k c. Inr 16) (\<lambda>art n k c. Inr 48)
       (\<lambda>art n k c. Inr 256) \<lparr>maxPrefix = 4\<rparr> node2 7 () = Inr 16 \<and>
   Erase (\<lambda>art n p. Inr (4 :: nat)) (\<lambda>art n p. Inr 16) (\<lambda>art n p. Inr 48)
       (\<lambda>art n p. Inr 256) \<lparr>maxPrefix = 4\<rparr> node2 0 = Inr 16 \<and>
   InsertLeaf (\<lambda>art n k c. Inr (4 :: nat)) (\<lambda>art n k c. Inr 16) (\<lambda>art n k c. Inr 48)
       (\<lambda>art n k c. Inr 256) \<lparr>maxPrefix = 4\<rparr> leaf0 7 () = Inl AssertionFailure \<and>
   Erase (\<lambda>art n p. Inr (4 :: nat)) (\<lambda>art n p. Inr 16) (\<lambda>art n p. Inr 48)
       (\<lambda>art n p. Inr 256) \<lparr>maxPrefix = 4\<rparr> leaf0 0 = Inl AssertionFailure"
proof -
  have t: "type node2 = N16"
    by (simp add: node2_def)
  have l: "type leaf0 \<notin> {N4, N16, N48, N256}"
    by (simp add: leaf0_def)
  note a = dispatch_default_branch [of node2 "\<lambda>art n k c. Inr (4 :: nat)" "\<lambda>art n k c. Inr 16"
        "\<lambda>art n k c. Inr 48" "\<lambda>art n k c. Inr 256" "\<lparr>maxPrefix = 4\<rparr>" 7 "()"
        "\<lambda>art n p. Inr (4 :: nat)" "\<lambda>art n p. Inr 16" "\<lambda>art n p. Inr 48" "\<lambda>art n p. Inr 256" 0]
  note b = dispatch_default_branch [of leaf0 "\<lambda>art n k c. Inr (4 :: nat)" "\<lambda>art n k c. Inr 16"
        "\<lambda>art n k c. Inr 48" "\<lambda>art n k c. Inr 256" "\<lparr>maxPrefix = 4\<rparr>" 7 "()"
        "\<lambda>art n p. Inr (4 :: nat)" "\<lambda>art n p. Inr 16" "\<lambda>art n p. Inr 48" "\<lambda>art n p. Inr 256" 0]
  from a have a': "type node2 = N16 \<longrightarrow>
      InsertLeaf (\<lambda>art n k c. Inr (4 :: nat)) (\<lambda>art n k c. Inr 16) (\<lambda>art n k c. Inr 48)
       (\<lambda>art n k c. Inr 256) \<lparr>maxPrefix = 4\<rparr> node2 7 () = Inr 16 \<and>
      Erase (\<lambda>art n p. Inr (4 :: nat)) (\<lambda>art n p. Inr 16) (\<lambda>art n p. Inr 48)
       (\<lambda>art n p. Inr 256) \<lparr>maxPrefix = 4\<rparr> node2 0 = Inr 16"
    by (elim conjE)
  from b have b': "type leaf0 \<notin> {N4, N16, N48, N256} \<longrightarrow>
      InsertLeaf (\<lambda>art n k c. Inr (4 :: nat)) (\<lambda>art n k c. Inr 16) (\<lambda>art n k c. Inr 48)
       (\<lambda>art n k c. Inr 256) \<lparr>maxPrefix = 4\<rparr> leaf0 7 () = Inl AssertionFailure \<and>
      Erase (\<lambda>art n p. Inr (4 :: nat)) (\<lambda>art n p. Inr 16) (\<lambda>art n p. Inr 48)
       (\<lambda>art n p. Inr 256) \<lparr>maxPrefix = 4\<rparr> leaf0 0 = Inl AssertionFailure \<and>
      \<not> recoverable AssertionFailure"
    by (elim conjE)
  from mp [OF a' t] mp [OF b' l] show ?thesis
    by simp
qed

section \<open>Properties of the modelled layouts\<close>

subsection \<open>Bytes and binary search\<close>




lemma bsearch_sound:
  "bsearch kvs b lo hi = Some c \<Longrightarrow> \<exists>i. lo \<le> i \<and> i < hi \<and> i < length kvs \<and> kvs ! i = (b, c)"
proof (induction kvs b lo hi rule: bsearch.induct)
  case (1 kvs b lo hi)
  let ?mid = "(lo + hi) div 2"
  from "1.prems" have range: "lo < hi" "hi \<le> length kvs"
    by (auto simp: bsearch.simps [of kvs b lo hi] split: if_splits)
  then have mid: "lo \<le> ?mid" "?mid < hi" "?mid < length kvs" by auto
  show ?case
  proof (cases "fst (kvs ! ?mid) = b")
    case True
    with "1.prems" range have "c = snd (kvs ! ?mid)"
      by (simp add: bsearch.simps [of kvs b lo hi] Let_def)
    with True have "kvs ! ?mid = (b, c)" by (simp add: prod_eq_iff)
    with mid show ?thesis by blast
  next
    case False
    show ?thesis
    proof (cases "fst (kvs ! ?mid) < b")
      case True
      with False "1.prems" range have "bsearch kvs b (?mid + 1) hi = Some c"
        by (simp add: bsearch.simps [of kvs b lo hi] Let_def)
      from "1.IH"(1) [OF _ refl False True this] range
      obtain i where "?mid + 1 \<le> i" "i < hi" "i < length kvs" "kvs ! i = (b, c)" by auto
      with mid show ?thesis by (intro exI [of _ i]) simp
    next
      case nlt: False
      with False "1.prems" range have "bsearch kvs b lo ?mid = Some c"
        by (simp add: bsearch.simps [of kvs b lo hi] Let_def)
      from "1.IH"(2) [OF _ refl False nlt this] range
      obtain i where "lo \<le> i" "i < ?mid" "i < length kvs" "kvs ! i = (b, c)" by auto
      with mid show ?thesis by (intro exI [of _ i]) simp
    qed
  qed
qed



subsection \<open>Lookup and the list of pairs\<close>















subsection \<open>Storing a pair\<close>








subsection \<open>Overwriting a child and copying pairs\<close>

lemma fst_replace: "fst \<circ> (\<lambda>(k, x). if k = b then (k, c) else (k, x)) = fst"
  by (auto simp: fun_eq_iff)

lemma map_fst_replace:
  "map fst (map (\<lambda>(k, x). if k = b then (k, c) else (k, x)) kvs) = map fst kvs"
  by (simp add: fst_replace)







subsection \<open>Replacing a node by another variant\<close>





subsection \<open>Insertion into a node\<close>











subsection \<open>Removal from a node\<close>












section \<open>Properties of the modelled tree\<close>

subsection \<open>Contents and invariant of an inner node\<close>

lemma entries_Inner: "entries (Inner h lay) = (\<Union>c \<in> set_layout lay. entries c)"
  by (simp add: layout.set_map)

lemma tree_inv_Inner:
  "tree_inv art strict n (Inner h lay) d \<longleftrightarrow>
     (strict \<longrightarrow> prefix_length h \<le> maxPrefix art) \<and>
     wf_node art (inner_of h lay) \<and>
     d + unat (prefix_length h) < n \<and>
     (\<forall>c \<in> set_layout lay. tree_inv art strict n c (Suc (d + unat (prefix_length h)))) \<and>
     (\<forall>b c. get_child lay b = Some c \<longrightarrow>
        (\<forall>e \<in> entries c. fst e ! (d + unat (prefix_length h)) = b)) \<and>
     (\<forall>c \<in> set_layout lay. \<forall>e \<in> entries c.
        \<forall>i < min (unat (prefix_length h)) (unat (maxPrefix art)). fst e ! (d + i) = prefix h ! i)"
  by (simp add: layout.set_map)

lemmas tree_simps = entries.simps(1) entries_Inner tree_inv.simps(1) tree_inv_Inner

declare entries.simps(2) [simp del] tree_inv.simps(2) [simp del]

lemma inner_of_simps [simp]:
  "prefix_length (inner_of h lay) = prefix_length h"
  "count (inner_of h lay) = count h"
  "type (inner_of h lay) = type h"
  "prefix (inner_of h lay) = prefix h"
  "Node.more (inner_of h lay) = lay"
  by (simp_all add: inner_of_def)

lemma allocated_for_inner_of [simp]: "allocated_for art (inner_of h lay) = allocated_for art h"
  by (simp add: allocated_for_def)



subsection \<open>The prefix comparison at a node of the tree\<close>


lemma PrefixMismatch_overflow:
  "\<not> prefix_length node \<le> maxPrefix art \<Longrightarrow>
   PrefixMismatch art node key depth = Inl NotImplementedException"
  by (simp add: PrefixMismatch_def PrefixMismatch_traced_def)



subsection \<open>Contents after an insertion\<close>











subsection \<open>Insertion at a leaf\<close>


subsection \<open>Insertion inside a prefix\<close>



subsection \<open>Insertion below a node\<close>





subsection \<open>Insertion and search from the root\<close>











subsection \<open>The comparison for every key\<close>

lemma common_span_Nil2 [simp]: "common_span xs [] = 0"
  by (cases xs) simp_all

lemma common_span_le: "common_span xs ys \<le> length xs" "common_span xs ys \<le> length ys"
  by (induction xs ys rule: common_span.induct) simp_all

lemma PrefixMismatch_loop_span:
  assumes "unat depth + unat (prefix_length node) < 2 ^ 64"
    and "unat (prefix_length node) \<le> length (prefix node)"
    and "unat pos \<le> unat (prefix_length node)"
  shows "(let m = common_span (drop (unat depth + unat pos) key)
                    (drop (unat pos) (take (unat (prefix_length node)) (prefix node)))
          in if unat pos + m < unat (prefix_length node) \<and> length key \<le> unat depth + unat pos + m
             then snd (PrefixMismatch_loop node key depth pos tr) = Inl OutOfBounds
             else \<exists>r. snd (PrefixMismatch_loop node key depth pos tr) = Inr r \<and>
                      unat r = unat pos + m)"
  using assms
proof (induction node key depth pos tr rule: PrefixMismatch_loop.induct)
  case (1 node key depth pos tr)
  let ?pl = "unat (prefix_length node)"
  let ?p = "take ?pl (prefix node)"
  show ?case
  proof (cases "pos < ucast (prefix_length node)")
    case False
    then have e: "unat pos = ?pl"
      using "1.prems"(3) by (simp add: less_ucast_u32_iff)
    have "PrefixMismatch_loop node key depth pos tr = (tr, Inr pos)"
      using False by (simp add: PrefixMismatch_loop.simps [of node key depth pos tr])
    then show ?thesis using e by (simp add: Let_def)
  next
    case True
    then have lt: "unat pos < ?pl"
      by (simp add: less_ucast_u32_iff)
    have i: "unat (depth + pos) = unat depth + unat pos"
      using lt "1.prems"(1) by (intro unat_add_no_wrap) simp
    have jb: "\<not> length (prefix node) \<le> unat pos" using lt "1.prems"(2) by simp
    have lp: "unat pos < length ?p" using lt "1.prems"(2) by simp
    have dp: "drop (unat pos) ?p = prefix node ! unat pos # drop (Suc (unat pos)) ?p"
      using Cons_nth_drop_Suc [OF lp] lt by simp
    show ?thesis
    proof (cases "length key \<le> unat depth + unat pos")
      case short: True
      then have "PrefixMismatch_loop node key depth pos tr =
              (tr @ [KeyRead (unat (depth + pos)), PrefixRead (unat pos)], Inl OutOfBounds)"
        using True i by (simp add: PrefixMismatch_loop.simps [of node key depth pos tr] Let_def)
      moreover have "drop (unat depth + unat pos) key = []" using short by simp
      ultimately show ?thesis using lt short by (simp add: Let_def)
    next
      case long: False
      then have dk: "drop (unat depth + unat pos) key =
          key ! (unat depth + unat pos) # drop (Suc (unat depth + unat pos)) key"
        by (simp add: Cons_nth_drop_Suc)
      have inb: "\<not> (length key \<le> unat (depth + pos) \<or> length (prefix node) \<le> unat pos)"
        using long jb i by simp
      show ?thesis
      proof (cases "key ! unat (depth + pos) \<noteq> prefix node ! unat pos")
        case neq: True
        have "PrefixMismatch_loop node key depth pos tr =
              (tr @ [KeyRead (unat (depth + pos)), PrefixRead (unat pos)], Inr pos)"
          using True inb neq by (simp add: PrefixMismatch_loop.simps [of node key depth pos tr] Let_def)
        moreover have "common_span (drop (unat depth + unat pos) key) (drop (unat pos) ?p) = 0"
          using neq i unfolding dk dp by simp
        ultimately show ?thesis using long by (simp add: Let_def)
      next
        case eq: False
        have step: "PrefixMismatch_loop node key depth pos tr =
              PrefixMismatch_loop node key depth (pos + 1)
                (tr @ [KeyRead (unat (depth + pos)), PrefixRead (unat pos)])"
          using True inb eq by (simp add: PrefixMismatch_loop.simps [of node key depth pos tr] Let_def)
        have suc: "unat (pos + 1) = Suc (unat pos)"
          using lt by (rule unat_succ_below_u32)
        define m' where "m' = common_span (drop (Suc (unat depth + unat pos)) key)
                                (drop (Suc (unat pos)) ?p)"
        have m: "common_span (drop (unat depth + unat pos) key) (drop (unat pos) ?p) = Suc m'"
          using eq i unfolding dk dp m'_def by simp
        have "(let m = common_span (drop (unat depth + unat (pos + 1)) key)
                    (drop (unat (pos + 1)) ?p)
          in if unat (pos + 1) + m < ?pl \<and> length key \<le> unat depth + unat (pos + 1) + m
             then snd (PrefixMismatch_loop node key depth (pos + 1)
                (tr @ [KeyRead (unat (depth + pos)), PrefixRead (unat pos)])) = Inl OutOfBounds
             else \<exists>r. snd (PrefixMismatch_loop node key depth (pos + 1)
                (tr @ [KeyRead (unat (depth + pos)), PrefixRead (unat pos)])) = Inr r \<and>
                      unat r = unat (pos + 1) + m)"
          using "1.prems" suc lt
          by (intro "1.IH" [OF True refl refl refl inb eq]) simp_all
        then have ih: "if Suc (unat pos + m') < ?pl \<and> length key \<le> Suc (unat depth + unat pos + m')
             then snd (PrefixMismatch_loop node key depth (pos + 1)
                (tr @ [KeyRead (unat (depth + pos)), PrefixRead (unat pos)])) = Inl OutOfBounds
             else \<exists>r. snd (PrefixMismatch_loop node key depth (pos + 1)
                (tr @ [KeyRead (unat (depth + pos)), PrefixRead (unat pos)])) = Inr r \<and>
                      unat r = Suc (unat pos + m')"
          by (simp add: Let_def suc m'_def cong: if_cong)
        show ?thesis
          unfolding step m Let_def using ih by simp
      qed
    qed
  qed
qed

text \<open>The result of the comparison for every key, in terms of the common span of the
  key from \<open>d\<close> on and the prefix.\<close>

lemma PrefixMismatch_span:
  assumes fits: "prefix_length h \<le> maxPrefix art" and a: "allocated_for art h"
    and d: "d + unat (prefix_length h) < 2 ^ 64"
  shows "PrefixMismatch art h key (of_nat d) =
     (let m = common_span (drop d key) (take (unat (prefix_length h)) (prefix h)) in
      if m < unat (prefix_length h) \<and> length key \<le> d + m then Inl OutOfBounds
      else Inr (of_nat m))"
proof -
  let ?pl = "unat (prefix_length h)"
  define m where "m = common_span (drop d key) (take ?pl (prefix h))"
  have b: "?pl \<le> length (prefix h)"
    using fits a by (simp add: allocated_for_bound)
  have ud: "unat (of_nat d :: u64) = d" using d by (simp add: unat_of_nat)
  have mle: "m \<le> ?pl" unfolding m_def using common_span_le(2) [of "drop d key" "take ?pl (prefix h)"] b by simp
  have "unat (of_nat d :: u64) + ?pl < 2 ^ 64" using d ud by simp
  from PrefixMismatch_loop_span [OF this b, of 0 key "[]"]
  have l: "if m < ?pl \<and> length key \<le> d + m
           then snd (PrefixMismatch_loop h key (of_nat d) 0 []) = Inl OutOfBounds
           else \<exists>r. snd (PrefixMismatch_loop h key (of_nat d) 0 []) = Inr r \<and> unat r = m"
    by (simp add: Let_def ud m_def cong: if_cong)
  show ?thesis
  proof (cases "m < ?pl \<and> length key \<le> d + m")
    case True
    with l have "snd (PrefixMismatch_loop h key (of_nat d) 0 []) = Inl OutOfBounds"
      by simp
    then show ?thesis using True fits
      by (auto simp: PrefixMismatch_def PrefixMismatch_traced_def Let_def m_def [symmetric]
          split: prod.splits sum.splits)
  next
    case False
    with l obtain r where r: "snd (PrefixMismatch_loop h key (of_nat d) 0 []) = Inr r" "unat r = m"
      by auto
    have "unat (ucast r :: u32) = unat r"
      using mle r(2) by (intro unat_ucast_u64_u32 [of r "prefix_length h"]) simp
    moreover have "unat (of_nat m :: u32) = m"
      using mle unat_u32_bound [of "prefix_length h"] by (simp add: unat_of_nat)
    ultimately have "(ucast r :: u32) = of_nat m" using r(2) by (simp add: word_unat_eq_iff)
    then show ?thesis using False fits r(1)
      by (auto simp: PrefixMismatch_def PrefixMismatch_traced_def Let_def m_def [symmetric]
          split: prod.splits sum.splits)
  qed
qed

subsection \<open>Erasing an absent pair\<close>

lemma alloc_tree_Inner:
  "alloc_tree art (Inner h lay) \<longleftrightarrow>
     allocated_for art h \<and> (\<forall>c \<in> set_layout lay. alloc_tree art c)"
  by (simp add: layout.set_map)

declare alloc_tree.simps(2) [simp del]

lemma get_child_in_set: "get_child lay b = Some c \<Longrightarrow> c \<in> set_layout lay"
proof (cases lay)
  case (Node4 kvs)
  assume "get_child lay b = Some c"
  with Node4 have "(b, c) \<in> set kvs" by (auto dest: map_of_SomeD)
  then show ?thesis using Node4 by force
next
  case (Node16 kvs)
  assume "get_child lay b = Some c"
  with Node16 bsearch_sound [of kvs b 0 "length kvs" c]
  obtain i where "i < length kvs" "kvs ! i = (b, c)" by auto
  then have "(b, c) \<in> set kvs" by (metis nth_mem)
  then show ?thesis using Node16 by force
next
  case (Node48 idx slots)
  assume "get_child lay b = Some c"
  with Node48 obtain s where "s < length slots" "slots ! s = Some c"
    by (auto split: option.splits if_splits)
  then have "Some c \<in> set slots" by (metis nth_mem)
  then show ?thesis using Node48 by force
next
  case (Node256 arr)
  assume "get_child lay b = Some c"
  then show ?thesis using Node256 by (auto simp: image_iff intro: exI [of _ b])
qed

text \<open>What the comparison at a node of the descent yields, by the fault of the path.\<close>

lemma PrefixMismatch_path:
  assumes a: "allocated_for art h" and dk: "depth \<le> length key" and len: "length key < 2 ^ 32"
  shows "PrefixMismatch art h key (of_nat depth) =
     (if maxPrefix art < prefix_length h then Inl NotImplementedException
      else
        (let m = common_span (drop depth key) (take (unat (prefix_length h)) (prefix h)) in
         if m < unat (prefix_length h) \<and> length key \<le> depth + m then Inl OutOfBounds
         else Inr (of_nat m)))"
    and "\<not> maxPrefix art < prefix_length h \<Longrightarrow>
         (of_nat (common_span (drop depth key) (take (unat (prefix_length h)) (prefix h))) :: u32)
            < prefix_length h \<longleftrightarrow>
          common_span (drop depth key) (take (unat (prefix_length h)) (prefix h))
            < unat (prefix_length h)"
proof -
  let ?pl = "unat (prefix_length h)"
  let ?m = "common_span (drop depth key) (take ?pl (prefix h))"
  have "(2::nat) ^ 32 + 2 ^ 32 < 2 ^ 64" by simp
  with dk len unat_u32_bound [of "prefix_length h"] have d: "depth + ?pl < 2 ^ 64" by linarith
  show "PrefixMismatch art h key (of_nat depth) =
     (if maxPrefix art < prefix_length h then Inl NotImplementedException
      else
        (let m = ?m in
         if m < ?pl \<and> length key \<le> depth + m then Inl OutOfBounds
         else Inr (of_nat m)))"
  proof (cases "maxPrefix art < prefix_length h")
    case True
    then have "\<not> prefix_length h \<le> maxPrefix art" by simp
    from PrefixMismatch_overflow [OF this] True show ?thesis by simp
  next
    case False
    then have "prefix_length h \<le> maxPrefix art" by simp
    from PrefixMismatch_span [OF this a d] False show ?thesis by simp
  qed
  have "?m \<le> length (take ?pl (prefix h))" by (rule common_span_le(2))
  then have "?m \<le> ?pl" by simp
  then have "unat (of_nat ?m :: u32) = ?m"
    using unat_u32_bound [of "prefix_length h"] by (simp add: unat_of_nat)
  then show "(of_nat ?m :: u32) < prefix_length h \<longleftrightarrow> ?m < ?pl"
    by (simp add: word_less_nat_alt)
qed

lemma erase_at_absent_exact:
  assumes "alloc_tree art t" and "d \<le> length key" and "length key < 2 ^ 32"
    and "\<And>rs. (key, rs) \<in> entries t \<Longrightarrow> rid \<notin> set rs"
  shows "erase_at th art r t key rid d =
           (case path_fault art t key d of
              Some e \<Rightarrow> Inl e
            | None \<Rightarrow> Inr (NotFound, Some t))"
  using assms
proof (induction th art r t key rid d rule: erase_at.induct)
  case (1 th art r k rs key rid depth)
  then show ?case by (auto simp: erase_at.simps path_fault.simps)
next
  case (2 th art r h lay key rid depth)
  let ?pl = "unat (prefix_length h)"
  let ?d = "depth + ?pl"
  let ?m = "common_span (drop depth key) (take ?pl (prefix h))"
  from "2.prems"(1) have a: "allocated_for art h"
    and ch: "\<And>c. c \<in> set_layout lay \<Longrightarrow> alloc_tree art c"
    unfolding alloc_tree_Inner by auto
  note pm = PrefixMismatch_path [OF a "2.prems"(2,3)]
  show ?case
  proof (cases "maxPrefix art < prefix_length h")
    case True
    then show ?thesis using pm(1)
      by (simp add: erase_at.simps(2) [of _ _ _ h] path_fault.simps(2) [of _ h])
  next
    case fits: False
    show ?thesis
    proof (cases "?m < ?pl")
      case mis: True
      show ?thesis
      proof (cases "depth + ?m < length key")
        case True
        then have "PrefixMismatch art h key (of_nat depth) = Inr (of_nat ?m)"
          using pm(1) fits mis by (simp add: Let_def)
        then show ?thesis using pm(2) [OF fits] mis True fits
          by (simp add: erase_at.simps(2) [of _ _ _ h] path_fault.simps(2) [of _ h] Let_def)
      next
        case False
        then have "PrefixMismatch art h key (of_nat depth) = Inl OutOfBounds"
          using pm(1) fits mis by (simp add: Let_def)
        then show ?thesis using mis False fits
          by (simp add: erase_at.simps(2) [of _ _ _ h] path_fault.simps(2) [of _ h] Let_def)
      qed
    next
      case full: False
      then have m: "PrefixMismatch art h key (of_nat depth) = Inr (of_nat ?m)"
        using pm(1) fits by (simp add: Let_def)
      have ge: "\<not> (of_nat ?m :: u32) < prefix_length h" using pm(2) [OF fits] full by simp
      show ?thesis
      proof (cases "?d < length key")
        case False
        then show ?thesis using m ge full fits
          by (simp add: erase_at.simps(2) [of _ _ _ h] path_fault.simps(2) [of _ h] Let_def)
      next
        case dk: True
        show ?thesis
        proof (cases "get_child lay (key ! ?d)")
          case None
          then show ?thesis using m ge full fits dk
            by (simp add: erase_at.simps(2) [of _ _ _ h] path_fault.simps(2) [of _ h] Let_def)
        next
          case (Some c)
          have cin: "c \<in> set_layout lay" using Some by (rule get_child_in_set)
          have sub: "entries c \<subseteq> entries (Inner h lay)"
            using cin by (auto simp: entries_Inner)
          have ab: "rid \<notin> set rs" if "(key, rs) \<in> entries c" for rs
            using that sub "2.prems"(4) by blast
          have dl: "?d + 1 \<le> length key" using dk by simp
          note ih = "2.IH" [OF m ge refl dk Some ch [OF cin] dl "2.prems"(3) ab]
          show ?thesis
          proof (cases "path_fault art c key (?d + 1)")
            case None
            with ih show ?thesis using m ge full fits dk Some
              by (simp add: erase_at.simps(2) [of _ _ _ h] path_fault.simps(2) [of _ h] Let_def)
          next
            case (Some e)
            with ih show ?thesis using m ge full fits dk \<open>get_child lay (key ! ?d) = Some c\<close>
              by (simp add: erase_at.simps(2) [of _ _ _ h] path_fault.simps(2) [of _ h] Let_def)
          qed
        qed
      qed
    qed
  qed
qed

lemma path_fault_cases:
  "path_fault art t key d = None \<or> path_fault art t key d = Some NotImplementedException \<or>
   path_fault art t key d = Some OutOfBounds"
proof (induction art t key d rule: path_fault.induct)
  case (1 art k rs key depth)
  then show ?case by (simp add: path_fault.simps)
next
  case (2 art h lay key depth)
  then show ?case
    by (auto simp: path_fault.simps(2) [of _ h] Let_def split: option.splits)
qed

section \<open>Claims about the modelled layouts and tree\<close>

subsection \<open>Growth thresholds and capacity\<close>




subsection \<open>The round trip of insert and search\<close>




subsection \<open>Erasing a pair that is not in the tree\<close>

text \<open>
  Claim C7 as it is stated does not hold. \<open>tree1\<close> is the tree that two insertions
  build with \<^verbatim>\<open>maxPrefix = 1\<close>; the pair (1,1,1,4; 1) is not in it, and erasing that pair
  ends in the exception of \<^verbatim>\<open>PrefixMismatch\<close>, not in the result \<open>NotFound\<close>. \<open>tree2\<close> is
  the tree that two insertions build with \<^verbatim>\<open>maxPrefix = 2\<close>; the key 7 is not in it, and
  erasing it reads the key byte at position 1, past the end of the key.
\<close>

theorem erase_absent_not_implemented:
  "insert_all \<lparr>maxPrefix = 1\<rparr> False None [([1, 1, 1, 2], 1), ([1, 1, 1, 3], 2)] =
     Inr (Some tree1) \<and>
   \<not> present (Some tree1) [1, 1, 1, 4] 1 \<and>
   Erase_key quarter_capacity \<lparr>maxPrefix = 1\<rparr> (Some tree1) [1, 1, 1, 4] 1 =
     Inl NotImplementedException \<and>
   insert_all \<lparr>maxPrefix = 2\<rparr> False None [([7, 1], 10), ([7, 2], 20)] = Inr (Some tree2) \<and>
   \<not> present (Some tree2) [7] 10 \<and>
   Erase_key quarter_capacity \<lparr>maxPrefix = 2\<rparr> (Some tree2) [7] 10 = Inl OutOfBounds"
proof (intro conjI)
  show "insert_all \<lparr>maxPrefix = 1\<rparr> False None [([1, 1, 1, 2], 1), ([1, 1, 1, 3], 2)] =
     Inr (Some tree1)"
    by code_simp
  show "\<not> present (Some tree1) [1, 1, 1, 4] 1"
    by (simp add: present_def tree1_def entries_Inner)
  show "Erase_key quarter_capacity \<lparr>maxPrefix = 1\<rparr> (Some tree1) [1, 1, 1, 4] 1 =
     Inl NotImplementedException"
    by code_simp
  show "insert_all \<lparr>maxPrefix = 2\<rparr> False None [([7, 1], 10), ([7, 2], 20)] = Inr (Some tree2)"
    by code_simp
  show "\<not> present (Some tree2) [7] 10"
    by (simp add: present_def tree2_def entries_Inner)
  show "Erase_key quarter_capacity \<lparr>maxPrefix = 2\<rparr> (Some tree2) [7] 10 = Inl OutOfBounds"
    by code_simp
qed

text \<open>
  Claim C7, amended. For every tree whose nodes have the prefix buffer that the
  constructor allocates, every key shorter than \<open>2 ^ 32\<close> bytes and every pair of that
  key and a row identifier that is not present in the tree: unless the descent needs a
  key byte past the end of the key, erasing the pair returns the result \<open>NotFound\<close> and
  the tree as it was, except that it ends in the not-implemented error of
  \<^verbatim>\<open>PrefixMismatch\<close> exactly when the descent comes to a node whose prefix length exceeds
  \<^verbatim>\<open>maxPrefix\<close>. It never ends in a failed assertion.
\<close>

theorem Erase_absent_not_found:
  assumes "root_alloc art root" and "length key < 2 ^ 32" and "\<not> present root key rid"
    and "root_fault art root key \<noteq> Some OutOfBounds"
  shows "Erase_key th art root key rid =
           (if root_fault art root key = Some NotImplementedException
            then Inl NotImplementedException else Inr (NotFound, root))"
proof (cases root)
  case None
  then show ?thesis by (simp add: Erase_key_def root_fault_def)
next
  case (Some t)
  with assms(1) have al: "alloc_tree art t" by (simp add: root_alloc_def)
  have ab: "rid \<notin> set rs" if "(key, rs) \<in> entries t" for rs
    using that assms(3) Some by (auto simp: present_def)
  have e: "erase_at th art True t key rid 0 =
           (case path_fault art t key 0 of
              Some e \<Rightarrow> Inl e
            | None \<Rightarrow> Inr (NotFound, Some t))"
    using al _ assms(2) ab by (rule erase_at_absent_exact) simp
  from path_fault_cases [of art t key 0] assms(4) Some e show ?thesis
    by (auto simp: Erase_key_def root_fault_def)
qed

text \<open>
  The theorem at \<open>tree2\<close>, whose prefix fits, for a key that leaves the tree at the
  root, a key longer than the keys of the tree, and a key of the tree with another row
  identifier; and at \<open>tree1\<close>, whose prefix does not fit.
\<close>

theorem Erase_absent_not_found_witness:
  "Erase_key quarter_capacity \<lparr>maxPrefix = 2\<rparr> (Some tree2) [8] 10 =
     Inr (NotFound, Some tree2) \<and>
   Erase_key quarter_capacity \<lparr>maxPrefix = 2\<rparr> (Some tree2) [7, 3, 5] 10 =
     Inr (NotFound, Some tree2) \<and>
   Erase_key quarter_capacity \<lparr>maxPrefix = 2\<rparr> (Some tree2) [7, 1] 11 =
     Inr (NotFound, Some tree2) \<and>
   Erase_key quarter_capacity \<lparr>maxPrefix = 1\<rparr> (Some tree1) [1, 1, 1, 4] 1 =
     Inl NotImplementedException"
proof -
  have al: "root_alloc \<lparr>maxPrefix = 2\<rparr> (Some tree2)" "root_alloc \<lparr>maxPrefix = 1\<rparr> (Some tree1)"
    by (simp_all add: root_alloc_def tree1_def tree2_def alloc_tree_Inner allocated_for_def)
  have np: "\<not> present (Some tree2) [8] 10" "\<not> present (Some tree2) [7, 3, 5] 10"
    "\<not> present (Some tree2) [7, 1] 11" "\<not> present (Some tree1) [1, 1, 1, 4] 1"
    by (simp_all add: present_def tree1_def tree2_def entries_Inner)
  have f: "root_fault \<lparr>maxPrefix = 2\<rparr> (Some tree2) [8] = None"
    "root_fault \<lparr>maxPrefix = 2\<rparr> (Some tree2) [7, 3, 5] = None"
    "root_fault \<lparr>maxPrefix = 2\<rparr> (Some tree2) [7, 1] = None"
    "root_fault \<lparr>maxPrefix = 1\<rparr> (Some tree1) [1, 1, 1, 4] = Some NotImplementedException"
    by code_simp+
  have "Erase_key quarter_capacity \<lparr>maxPrefix = 2\<rparr> (Some tree2) [8] 10 =
     Inr (NotFound, Some tree2)"
    using Erase_absent_not_found [OF al(1) _ np(1), of quarter_capacity] f(1) by simp
  moreover have "Erase_key quarter_capacity \<lparr>maxPrefix = 2\<rparr> (Some tree2) [7, 3, 5] 10 =
     Inr (NotFound, Some tree2)"
    using Erase_absent_not_found [OF al(1) _ np(2), of quarter_capacity] f(2) by simp
  moreover have "Erase_key quarter_capacity \<lparr>maxPrefix = 2\<rparr> (Some tree2) [7, 1] 11 =
     Inr (NotFound, Some tree2)"
    using Erase_absent_not_found [OF al(1) _ np(3), of quarter_capacity] f(3) by simp
  moreover have "Erase_key quarter_capacity \<lparr>maxPrefix = 1\<rparr> (Some tree1) [1, 1, 1, 4] 1 =
     Inl NotImplementedException"
    using Erase_absent_not_found [OF al(2) _ np(4), of quarter_capacity] f(4) by simp
  ultimately show ?thesis by simp
qed

end
